theory Spec2Isabelle
  imports Complex_Main "HOL-Library.Sublist"
begin

section \<open>Strings\<close>

text \<open>
  A string is a list of 8-bit characters holding the text in UTF-8. The case mappings and
  the white-space tests below are those of the code on the ASCII range, which is where the
  verdict labels, the class names and the claims of the examples live: a byte outside ASCII
  is left as it is by the case mappings and is never white space.
\<close>

definition toUpperCase_char :: "char \<Rightarrow> char" where
  "toUpperCase_char c =
     (case map_of (zip ''abcdefghijklmnopqrstuvwxyz'' ''ABCDEFGHIJKLMNOPQRSTUVWXYZ'') c of
        Some u \<Rightarrow> u
      | None \<Rightarrow> c)"

definition toUpperCase :: "string \<Rightarrow> string" where
  "toUpperCase s = map toUpperCase_char s"

text \<open>\<open>String.prototype.includes\<close>: does \<open>needle\<close> occur in \<open>hay\<close> as a contiguous run?\<close>

fun str_includes :: "string \<Rightarrow> string \<Rightarrow> bool" where
  "str_includes [] needle = (needle = [])"
| "str_includes (h # hay) needle = (prefix needle (h # hay) \<or> str_includes hay needle)"

definition toLowerCase_char :: "char \<Rightarrow> char" where
  "toLowerCase_char c =
     (case map_of (zip ''ABCDEFGHIJKLMNOPQRSTUVWXYZ'' ''abcdefghijklmnopqrstuvwxyz'') c of
        Some l \<Rightarrow> l
      | None \<Rightarrow> c)"

text \<open>Python's \<open>str.lower\<close>.\<close>

definition lower :: "string \<Rightarrow> string" where
  "lower s = map toLowerCase_char s"

text \<open>
  White space of JavaScript's \<open>String.prototype.trim\<close> (tab, line feed, vertical tab,
  form feed, carriage return, space) and of Python's \<open>str.strip\<close> (the same and the
  four separators \<open>0x1C\<close> to \<open>0x1F\<close>).
\<close>

definition js_space :: "char \<Rightarrow> bool" where
  "js_space c \<longleftrightarrow> c \<in> set [CHR 0x09, CHR 0x0A, CHR 0x0B, CHR 0x0C, CHR 0x0D, CHR 0x20]"

definition py_space :: "char \<Rightarrow> bool" where
  "py_space c \<longleftrightarrow>
     c \<in> set [CHR 0x09, CHR 0x0A, CHR 0x0B, CHR 0x0C, CHR 0x0D,
              CHR 0x1C, CHR 0x1D, CHR 0x1E, CHR 0x1F, CHR 0x20]"

definition trim :: "string \<Rightarrow> string" where
  "trim s = rev (dropWhile js_space (rev (dropWhile js_space s)))"

definition strip :: "string \<Rightarrow> string" where
  "strip s = rev (dropWhile py_space (rev (dropWhile py_space s)))"

text \<open>A number in decimal, as a template literal prints it.\<close>

definition digit :: "nat \<Rightarrow> char" where
  "digit d = ''0123456789'' ! d"

fun decimal_onto :: "nat \<Rightarrow> string \<Rightarrow> string" where
  "decimal_onto n rest =
     (if n < 10 then digit n # rest else decimal_onto (n div 10) (digit (n mod 10) # rest))"

definition decimal :: "nat \<Rightarrow> string" where
  "decimal n = decimal_onto n []"

text \<open>The warning sign \<open>U+26A0 U+FE0F\<close> that opens the user-facing notices.\<close>

definition warning_sign :: string where
  "warning_sign = [CHR 0xE2, CHR 0x9A, CHR 0xA0, CHR 0xEF, CHR 0xB8, CHR 0x8F]"

definition newline :: string where
  "newline = [CHR 0x0A]"

section \<open>TrendingNews: the badge class of a verdict\<close>

text \<open>
  \<^verbatim>\<open>
  const getVerdictClass = (verdict) => {
    const v = verdict.toUpperCase();
    if (v.includes('VERIFIED') || v.includes('TRUE')) return 'verified';
    if (v.includes('FALSE') || v.includes('MISLEADING')) return 'false';
    if (v.includes('UNCHECKED') || v.includes('NEEDS')) return 'unchecked';
    return 'unchecked';
  };
  \<close>
\<close>

definition getVerdictClass :: "string \<Rightarrow> string" where
  "getVerdictClass verdict =
     (let v = toUpperCase verdict in
      if str_includes v ''VERIFIED'' \<or> str_includes v ''TRUE'' then ''verified''
      else if str_includes v ''FALSE'' \<or> str_includes v ''MISLEADING'' then ''false''
      else if str_includes v ''UNCHECKED'' \<or> str_includes v ''NEEDS'' then ''unchecked''
      else ''unchecked'')"

section \<open>The fact-check engine: data\<close>

text \<open>
  The backend (\<open>backend/app.py\<close>) is not among the sources. What the sources hold of it is
  the cache key and the cache check of the caching guide, the delays of the retry loop, the
  two user-facing notices, and the fields the frontend reads from a reply. The rest of the
  engine follows the specification, and each definition below says which.
\<close>

text \<open>Modelled from the spec: the enumerated verdict labels of a SourceResult (section 3).\<close>

datatype label = VERIFIED | FALSE | MISLEADING | UNCHECKED | ANALYZED

fun label_name :: "label \<Rightarrow> string" where
  "label_name VERIFIED = ''VERIFIED''"
| "label_name FALSE = ''FALSE''"
| "label_name MISLEADING = ''MISLEADING''"
| "label_name UNCHECKED = ''UNCHECKED''"
| "label_name ANALYZED = ''ANALYZED''"

text \<open>
  Modelled from the spec: the reason of an \<open>Unavailable\<close> result and the typed failure of
  an adapter call (sections 4.1, 4.2 and 7): no record matched, throttling, a bad
  credential, a network timeout, a 5xx-equivalent reply.
\<close>

datatype reason = no_match | RateLimited | AuthError | NetworkTimeout | ServerError

text \<open>
  An article as the frontend reads it (\<open>title\<close>, \<open>source\<close>, \<open>pubDate\<close>, and the optional
  \<open>description\<close> and \<open>url\<close>), and the embedded fact-check sub-result
  (\<open>google_fact_check\<close> with \<open>verdict\<close>, \<open>source\<close>, \<open>summary\<close>).
\<close>

record article =
  title :: string
  source :: string
  pubDate :: string
  description :: "string option"
  url :: "string option"

record fact_check =
  fc_verdict :: label
  fc_source :: string
  fc_summary :: string

text \<open>Modelled from the spec: the tagged variant SourceResult (section 3).\<close>

datatype SourceResult =
    FactCheckHit fact_check
  | ArticleList "article list"
  | AiAnalysis string
  | Unavailable reason

text \<open>
  The Verdict, with the keys of the reply: \<open>claim\<close> (here \<open>v_claim\<close>), \<open>verdict\<close>,
  \<open>analysis\<close>, \<open>supporting_articles\<close>, \<open>articles_count\<close> and the optional
  \<open>google_fact_check\<close>.
\<close>

record Verdict =
  v_claim :: string
  verdict :: label
  analysis :: string
  supporting_articles :: "article list"
  articles_count :: nat
  google_fact_check :: "fact_check option"

section \<open>The fact-check engine: retry with backoff\<close>

text \<open>
  Modelled from the spec: one invocation of an adapter either returns a normalized
  SourceResult or raises a typed failure; an operation handed to the controller is the
  outcome of its invocations, the first being invocation 0.
\<close>

datatype attempt = Returned SourceResult | Raised reason

type_synonym operation = "nat \<Rightarrow> attempt"

text \<open>
  Modelled from the spec: the transient classifications, the only ones retried
  (section 4.2).
\<close>

fun transient :: "reason \<Rightarrow> bool" where
  "transient RateLimited = True"
| "transient NetworkTimeout = True"
| "transient ServerError = True"
| "transient AuthError = False"
| "transient no_match = False"

text \<open>
  The delay after the failed invocation \<open>k\<close>. The guide gives the sequence of
  \<open>call_gemini_with_retry\<close> as \<open>2s, 4s, 8s\<close>: base 2, doubling.
\<close>

definition base_delay :: nat where
  "base_delay = 2"

definition delay :: "nat \<Rightarrow> nat" where
  "delay k = base_delay * 2 ^ k"

text \<open>
  Modelled from the spec: the body of \<open>withRetry\<close> (of \<open>call_gemini_with_retry\<close> the
  sources hold only the signature). \<open>retry op k n\<close> makes invocation \<open>k\<close> with \<open>n\<close>
  further invocations allowed. A returned result ends the loop; a transient failure is
  followed by a delay and the next invocation while one is allowed; any other failure, and
  the failure of the last allowed invocation, become \<open>Unavailable\<close>, so nothing is raised.
  The result comes with the delays slept, in order.
\<close>

fun retry :: "operation \<Rightarrow> nat \<Rightarrow> nat \<Rightarrow> SourceResult \<times> nat list" where
  "retry op k 0 =
     (case op k of Returned r \<Rightarrow> (r, []) | Raised f \<Rightarrow> (Unavailable f, []))"
| "retry op k (Suc n) =
     (case op k of
        Returned r \<Rightarrow> (r, [])
      | Raised f \<Rightarrow>
          if transient f
          then (case retry op (Suc k) n of (r, ds) \<Rightarrow> (r, delay k # ds))
          else (Unavailable f, []))"

text \<open>At least one invocation is made, also for a bound of 0.\<close>

definition withRetry :: "operation \<Rightarrow> nat \<Rightarrow> SourceResult \<times> nat list" where
  "withRetry op maxAttempts = retry op 0 (maxAttempts - 1)"

text \<open>The invocations made: one more than the delays slept.\<close>

definition invocations :: "SourceResult \<times> nat list \<Rightarrow> nat" where
  "invocations r = Suc (length (snd r))"

section \<open>The fact-check engine: cache key and cache\<close>

text \<open>
  \<^verbatim>\<open>
  def get_cache_key(claim: str) -> str:
      return hashlib.md5(claim.lower().strip().encode()).hexdigest()
  \<close>
  The digest is the library's; it is the parameter \<open>md5\<close>, and the properties below hold
  for every function in its place.
\<close>

definition get_cache_key :: "(string \<Rightarrow> 'k) \<Rightarrow> string \<Rightarrow> 'k" where
  "get_cache_key md5 claim = md5 (strip (lower claim))"

text \<open>
  The normal form of a claim in the words of the specification: trimmed, then lower-cased.
\<close>

definition normalize :: "string \<Rightarrow> string" where
  "normalize claim = lower (strip claim)"

text \<open>
  \<open>fact_check_cache\<close>: a dictionary from cache keys to the stored Verdict and the time it
  was stored at. Time is \<open>time.time()\<close>, in seconds.
\<close>

type_synonym 'k cache = "'k \<rightharpoonup> Verdict \<times> real"

text \<open>
  \<^verbatim>\<open>
  if cache_key in fact_check_cache:
      cached_result = fact_check_cache[cache_key]
      if time.time() - cached_result['timestamp'] < 3600:  # 1 hour
          return cached_result['data']
  \<close>
  The entry is looked at and left in place, fresh or not.
\<close>

definition ttl :: real where
  "ttl = 3600"

definition cache_get :: "'k cache \<Rightarrow> 'k \<Rightarrow> real \<Rightarrow> Verdict option" where
  "cache_get fact_check_cache cache_key now =
     (case fact_check_cache cache_key of
        None \<Rightarrow> None
      | Some (data, timestamp) \<Rightarrow> if now - timestamp < ttl then Some data else None)"

definition cache_put :: "'k cache \<Rightarrow> 'k \<Rightarrow> Verdict \<Rightarrow> real \<Rightarrow> 'k cache" where
  "cache_put fact_check_cache cache_key data now = fact_check_cache(cache_key \<mapsto> (data, now))"

section \<open>The fact-check engine: composing the Verdict\<close>

text \<open>
  The two notices of the rate-limit note, one per kind of degradation of the AI analysis.
\<close>

definition rate_limit_notice :: string where
  "rate_limit_notice =
     warning_sign @ '' AI Analysis temporarily unavailable due to rate limits. '' @ newline
     @ ''Please try again in a few moments.'' @ newline @ newline
     @ ''Based on the articles found, please review the sources manually for now.''"

definition auth_notice :: string where
  "auth_notice =
     warning_sign @ '' AI Analysis unavailable - API key issue. '' @ newline
     @ ''Please check your Gemini API key.'' @ newline @ newline
     @ ''Based on the articles found, please review the sources manually.''"

text \<open>
  Modelled from the spec: deduplication of the articles on the triple (title, source, URL),
  which the sources do not hold (section 4.4, step 3). The first article of each triple is
  kept, in the order received.
\<close>

definition article_key :: "article \<Rightarrow> string \<times> string \<times> string option" where
  "article_key a = (title a, source a, url a)"

fun dedup_from :: "(string \<times> string \<times> string option) list \<Rightarrow> article list \<Rightarrow> article list" where
  "dedup_from seen [] = []"
| "dedup_from seen (a # as) =
     (if article_key a \<in> set seen then dedup_from seen as
      else a # dedup_from (article_key a # seen) as)"

definition dedup :: "article list \<Rightarrow> article list" where
  "dedup as = dedup_from [] as"

text \<open>
  Modelled from the spec: the articles a News Adapter result carries, none when it is
  \<open>Unavailable\<close> (section 4.4).
\<close>

definition articles_of :: "SourceResult \<Rightarrow> article list" where
  "articles_of news = (case news of ArticleList as \<Rightarrow> as | _ \<Rightarrow> [])"

text \<open>
  Modelled from the spec: the sub-result \<open>google_fact_check\<close>, which the frontend reads from
  the reply and the sources do not build: the hit of the Fact-Check Adapter, when there is
  one (section 4.4, step 1).
\<close>

definition embedded :: "SourceResult \<Rightarrow> fact_check option" where
  "embedded fc = (case fc of FactCheckHit h \<Rightarrow> Some h | _ \<Rightarrow> None)"

text \<open>
  Modelled from the spec: the analysis field (section 4.4, step 4): the analysis of the AI
  Adapter, or the notice of its kind when the AI result is \<open>Unavailable\<close> by throttling or by
  a bad credential; without either it is empty.
\<close>

definition analysis_of :: "SourceResult \<Rightarrow> string" where
  "analysis_of ai =
     (case ai of
        AiAnalysis text \<Rightarrow> text
      | Unavailable RateLimited \<Rightarrow> rate_limit_notice
      | Unavailable AuthError \<Rightarrow> auth_notice
      | _ \<Rightarrow> [])"

text \<open>
  The Verdict Composer. The Verdict is the result of \<open>fact_check_with_newsdata\<close> as the
  caching guide builds it,
  \<^verbatim>\<open>
  result = { "claim": claim, "verdict": "ANALYZED", "analysis": analysis,
             "supporting_articles": articles, "articles_count": len(articles) }
  \<close>
  with the label \<open>ANALYZED\<close> whatever the sources answered, the analysis and the
  deduplicated articles as above, and the sub-result \<open>google_fact_check\<close> next to them.
\<close>

definition compose :: "string \<Rightarrow> SourceResult \<Rightarrow> SourceResult \<Rightarrow> SourceResult \<Rightarrow> Verdict" where
  "compose claim fc news ai =
     (let articles = dedup (articles_of news) in
      \<lparr>v_claim = claim,
       verdict = ANALYZED,
       analysis = analysis_of ai,
       supporting_articles = articles,
       articles_count = length articles,
       google_fact_check = embedded fc\<rparr>)"

section \<open>The fact-check engine: orchestration\<close>

text \<open>
  Modelled from the spec: the three Source Adapters (section 4.1), each an operation per
  claim; the AI Adapter is also given the articles of the News Adapter as grounding. The
  providers behind them are outside the program, so the adapters are a parameter.
\<close>

record adapters =
  fact_check_query :: "string \<Rightarrow> operation"
  news_query :: "string \<Rightarrow> operation"
  ai_query :: "string \<Rightarrow> article list \<Rightarrow> operation"

datatype adapter = FactCheckAdapter | NewsAdapter | AiAdapter

definition maxAttempts :: nat where
  "maxAttempts = 3"

text \<open>
  Modelled from the spec: the part of \<open>fact_check_with_newsdata\<close> that the caching guide
  leaves out (\<open>... rest of your function ...\<close>), as section 4.5 describes a miss: the
  Fact-Check Adapter, the News Adapter and then the AI Adapter, each through the retry
  controller, and the composer. The Verdict comes with the adapter invocations made, in
  order.
\<close>

definition run_sources :: "adapters \<Rightarrow> string \<Rightarrow> Verdict \<times> adapter list" where
  "run_sources A claim =
     (let fc = withRetry (fact_check_query A claim) maxAttempts;
          news = withRetry (news_query A claim) maxAttempts;
          ai = withRetry (ai_query A claim (articles_of (fst news))) maxAttempts
      in (compose claim (fst fc) (fst news) (fst ai),
          replicate (invocations fc) FactCheckAdapter
          @ replicate (invocations news) NewsAdapter
          @ replicate (invocations ai) AiAdapter))"

text \<open>What a call gives back: the value returned, the cache left behind, the invocations.\<close>

record ('a, 'k) outcome =
  returned :: 'a
  cache_after :: "'k cache"
  calls :: "adapter list"

text \<open>
  \<^verbatim>\<open>
  def fact_check_with_newsdata(claim: str):
      # Check cache first
      cache_key = get_cache_key(claim)
      if cache_key in fact_check_cache:
          cached_result = fact_check_cache[cache_key]
          if time.time() - cached_result['timestamp'] < 3600:  # 1 hour
              return cached_result['data']
      # ... rest of your function ...
      # Store in cache before returning
      result = { ... }
      fact_check_cache[cache_key] = { 'data': result, 'timestamp': time.time() }
      return result
  \<close>
  \<open>now\<close> is the clock at the check and \<open>stored_at\<close> the clock at the store.
\<close>

definition fact_check_with_newsdata ::
  "(string \<Rightarrow> 'k) \<Rightarrow> adapters \<Rightarrow> real \<Rightarrow> real \<Rightarrow> string \<Rightarrow> 'k cache \<Rightarrow> (Verdict, 'k) outcome" where
  "fact_check_with_newsdata md5 A now stored_at claim fact_check_cache =
     (let cache_key = get_cache_key md5 claim in
      case cache_get fact_check_cache cache_key now of
        Some data \<Rightarrow> \<lparr>returned = data, cache_after = fact_check_cache, calls = []\<rparr>
      | None \<Rightarrow>
          (case run_sources A claim of
             (result, invoked) \<Rightarrow>
               \<lparr>returned = result,
                cache_after = cache_put fact_check_cache cache_key result stored_at,
                calls = invoked\<rparr>))"

text \<open>
  Modelled from the spec: the engine's \<open>factCheck\<close> (sections 4.5, 6 and 7). A claim that
  is empty after trimming is rejected with a caller-input error naming the field, before
  anything else is done; every other claim goes through \<open>fact_check_with_newsdata\<close>.
\<close>

datatype error = CallerInputError string

definition factCheck ::
  "(string \<Rightarrow> 'k) \<Rightarrow> adapters \<Rightarrow> real \<Rightarrow> real \<Rightarrow> string \<Rightarrow> 'k cache \<Rightarrow> (error + Verdict, 'k) outcome" where
  "factCheck md5 A now stored_at claim fact_check_cache =
     (if strip claim = []
      then \<lparr>returned = Inl (CallerInputError ''claim''), cache_after = fact_check_cache, calls = []\<rparr>
      else
        let r = fact_check_with_newsdata md5 A now stored_at claim fact_check_cache
        in \<lparr>returned = Inr (returned r), cache_after = cache_after r, calls = calls r\<rparr>)"

section \<open>JournalistChat: submitting a claim\<close>

text \<open>
  The component's state, one field per \<open>useState\<close> hook (\<open>claim_text\<close> is the hook
  \<open>claim\<close>, the text of the input). \<open>'r\<close> is the type of the \<open>data\<close> member of the
  server's JSON reply.
\<close>

record 'r history_item =
  h_claim :: string
  h_result :: 'r
  h_timestamp :: string

record 'r chat_state =
  claim_text :: string
  result :: "'r option"
  loading :: bool
  error :: "string option"
  history :: "'r history_item list"

text \<open>
  What the \<open>fetch\<close> of \<open>POST /api/fact-check\<close> comes to:
  \<^item> \<open>FetchRejected m\<close>: the promise of \<open>fetch\<close> rejects with an error of message \<open>m\<close>;
  \<^item> \<open>NotOk status detail\<close>: a response with \<open>response.ok\<close> false; \<open>detail\<close> is the
    \<open>detail\<close> member of its JSON body, a string as FastAPI's \<open>HTTPException\<close> sends it,
    \<open>None\<close> when the body is not JSON or has none;
  \<^item> \<open>OkUnreadable m\<close>: \<open>response.ok\<close> holds and reading \<open>data.data\<close> throws an
    error of message \<open>m\<close>;
  \<^item> \<open>OkData d\<close>: \<open>response.ok\<close> holds and \<open>data.data\<close> is \<open>d\<close>.
\<close>

datatype 'r response =
    FetchRejected string
  | NotOk nat "string option"
  | OkUnreadable string
  | OkData 'r

text \<open>
  \<^verbatim>\<open>
  const errorData = await response.json().catch(() => null);
  const errorMessage = errorData?.detail || `Server error: ${response.status}`;
  if (response.status === 500 && errorMessage.includes('rate limit')) {
    throw new Error('... Rate limit reached. Please wait a moment and try again.');
  } else if (response.status === 500 && errorMessage.includes('API key')) {
    throw new Error('... API configuration issue. Please check your API keys.');
  } else {
    throw new Error(errorMessage);
  }
  \<close>
  The empty string is falsy, so an empty \<open>detail\<close> gives the fallback message too.
\<close>

definition not_ok_message :: "nat \<Rightarrow> string option \<Rightarrow> string" where
  "not_ok_message status detail =
     (let errorMessage =
        (case detail of
           Some d \<Rightarrow> if d = [] then ''Server error: '' @ decimal status else d
         | None \<Rightarrow> ''Server error: '' @ decimal status)
      in if status = 500 \<and> str_includes errorMessage ''rate limit''
         then warning_sign @ '' Rate limit reached. Please wait a moment and try again.''
         else if status = 500 \<and> str_includes errorMessage ''API key''
         then warning_sign @ '' API configuration issue. Please check your API keys.''
         else errorMessage)"

text \<open>
  The \<open>try\<close> block of \<open>handleSubmit\<close>, entered with the state \<open>s\<close> and the trimmed claim
  \<open>c\<close>: \<open>Inl m\<close> when it throws an error of message \<open>m\<close>, \<open>Inr s'\<close> when it runs to
  its end. \<open>now\<close> is \<open>new Date().toLocaleString()\<close>.
\<close>

definition try_block :: "string \<Rightarrow> 'r response \<Rightarrow> string \<Rightarrow> 'r chat_state \<Rightarrow> string + 'r chat_state" where
  "try_block now resp c s =
     (case resp of
        FetchRejected m \<Rightarrow> Inl m
      | NotOk status detail \<Rightarrow> Inl (not_ok_message status detail)
      | OkUnreadable m \<Rightarrow> Inl m
      | OkData d \<Rightarrow>
          Inr (s\<lparr>result := Some d,
                 history := \<lparr>h_claim = c, h_result = d, h_timestamp = now\<rparr> # history s,
                 claim_text := []\<rparr>))"

text \<open>
  \<^verbatim>\<open>
  const handleSubmit = async (e) => {
    e.preventDefault();
    if (!claim.trim()) {
      setError('Please enter a claim to fact-check');
      return;
    }
    try {
      setLoading(true);
      setError(null);
      const response = await fetch(...);
      if (!response.ok) { ... throw ... }
      const data = await response.json();
      setResult(data.data);
      setHistory(prev => [{ claim: claim.trim(), result: data.data,
                            timestamp: new Date().toLocaleString() }, ...prev]);
      setClaim('');
    } catch (err) {
      setError(err.message);
    } finally {
      setLoading(false);
    }
  };
  \<close>
  The state after the handler has run to its end. No request is sent for a blank claim, so
  the reply is not looked at there.
\<close>

definition handleSubmit :: "string \<Rightarrow> 'r response \<Rightarrow> 'r chat_state \<Rightarrow> 'r chat_state" where
  "handleSubmit now resp s =
     (if trim (claim_text s) = [] then s\<lparr>error := Some ''Please enter a claim to fact-check''\<rparr>
      else
        let s1 = s\<lparr>loading := True, error := None\<rparr>;
            s2 = (case try_block now resp (trim (claim_text s)) s1 of
                    Inl m \<Rightarrow> s1\<lparr>error := Some m\<rparr>
                  | Inr s' \<Rightarrow> s')
        in s2\<lparr>loading := False\<rparr>)"

text \<open>\<open>clearHistory\<close> empties the history and the displayed result.\<close>

definition clearHistory :: "'r chat_state \<Rightarrow> 'r chat_state" where
  "clearHistory s = s\<lparr>history := [], result := None\<rparr>"

section \<open>Example inputs\<close>

text \<open>
  Two operations: one throttled, then timed out, then answering; one throttled at every
  invocation.
\<close>

definition flaky_op :: operation where
  "flaky_op k =
     (if k = 0 then Raised RateLimited
      else if k = 1 then Raised NetworkTimeout
      else Returned (AiAnalysis ''Likely false.''))"

definition down_op :: operation where
  "down_op k = Raised RateLimited"

text \<open>Adapters whose providers are all down, and adapters with the AI provider throttled.\<close>

definition all_down :: adapters where
  "all_down =
     \<lparr>fact_check_query = (\<lambda>claim k. Raised ServerError),
      news_query = (\<lambda>claim k. Raised NetworkTimeout),
      ai_query = (\<lambda>claim grounding k. Raised RateLimited)\<rparr>"

definition article1 :: article where
  "article1 = \<lparr>title = ''Coffee and the heart'', source = ''Daily News'', pubDate = ''2025-01-02'',
               description = Some ''A study.'', url = Some ''https://example.org/coffee''\<rparr>"

definition article2 :: article where
  "article2 = \<lparr>title = ''Coffee and the heart'', source = ''Daily News'', pubDate = ''2025-01-03'',
               description = Some ''The same study, reprinted.'',
               url = Some ''https://example.org/coffee''\<rparr>"

definition article3 :: article where
  "article3 = \<lparr>title = ''Tea and the heart'', source = ''Weekly'', pubDate = ''2025-01-04'',
               description = None, url = None\<rparr>"

definition article4 :: article where
  "article4 = \<lparr>title = ''Vaccine safety review'', source = ''Health Desk'', pubDate = ''2025-02-01'',
               description = Some ''No link found.'', url = Some ''https://example.org/review''\<rparr>"

definition ai_throttled :: adapters where
  "ai_throttled =
     \<lparr>fact_check_query = (\<lambda>claim k. Returned (Unavailable no_match)),
      news_query = (\<lambda>claim k. Returned (ArticleList [article1, article3])),
      ai_query = (\<lambda>claim grounding k. Raised RateLimited)\<rparr>"

text \<open>
  The end-to-end scenario of the specification: the fact-check database answers \<open>FALSE\<close>
  with source PolitiFact, the news search gives three articles, the AI analysis succeeds.
\<close>

definition politifact_hit :: fact_check where
  "politifact_hit = \<lparr>fc_verdict = FALSE, fc_source = ''PolitiFact'',
                     fc_summary = ''No link between vaccines and autism.''\<rparr>"

definition scenario :: adapters where
  "scenario =
     \<lparr>fact_check_query = (\<lambda>claim k. Returned (FactCheckHit politifact_hit)),
      news_query = (\<lambda>claim k. Returned (ArticleList [article1, article3, article4])),
      ai_query = (\<lambda>claim grounding k. Returned (AiAnalysis ''The claim is false.''))\<rparr>"

text \<open>Adapters with a fact-check hit, one article, and an AI provider refusing the key.\<close>

definition ai_bad_key :: adapters where
  "ai_bad_key =
     \<lparr>fact_check_query = (\<lambda>claim k. Returned (FactCheckHit politifact_hit)),
      news_query = (\<lambda>claim k. Returned (ArticleList [article4])),
      ai_query = (\<lambda>claim grounding k. Raised AuthError)\<rparr>"

text \<open>A cache key for the examples: the normal form itself in place of its digest.\<close>

definition plain_key :: "string \<Rightarrow> string" where
  "plain_key s = s"

definition chat0 :: "nat chat_state" where
  "chat0 = \<lparr>claim_text = '' Coffee reduces heart disease '', result = Some 7, loading = False,
            error = None,
            history = [\<lparr>h_claim = ''old'', h_result = 7, h_timestamp = ''t0''\<rparr>]\<rparr>"

section \<open>Properties of the string helpers\<close>

lemma includes_sublist: "str_includes hay needle \<longleftrightarrow> sublist needle hay"
  by (induction hay) (auto simp: sublist_Cons_right)

lemma toUpperCase_sublist: "sublist xs ys \<Longrightarrow> sublist (toUpperCase xs) (toUpperCase ys)"
proof -
  assume "sublist xs ys"
  then obtain ps ss where "ys = ps @ xs @ ss" by (auto simp: sublist_def)
  then have "toUpperCase ys = toUpperCase ps @ toUpperCase xs @ toUpperCase ss"
    by (simp add: toUpperCase_def)
  then show ?thesis by (metis sublist_appendI)
qed

section \<open>TrendingNews: the three badge classes\<close>

lemma getVerdictClass_cases:
  "getVerdictClass str =
     (if sublist ''VERIFIED'' (toUpperCase str) \<or> sublist ''TRUE'' (toUpperCase str)
      then ''verified''
      else if sublist ''FALSE'' (toUpperCase str) \<or> sublist ''MISLEADING'' (toUpperCase str)
      then ''false''
      else ''unchecked'')"
  by (simp add: getVerdictClass_def Let_def includes_sublist)

lemma getVerdictClass_range: "range getVerdictClass = {''verified'', ''false'', ''unchecked''}"
proof
  show "range getVerdictClass \<subseteq> {''verified'', ''false'', ''unchecked''}"
    by (auto simp: getVerdictClass_cases)
  have "getVerdictClass ''VERIFIED'' = ''verified''" by code_simp
  moreover have "getVerdictClass ''FALSE'' = ''false''" by code_simp
  moreover have "getVerdictClass ''UNCHECKED'' = ''unchecked''" by code_simp
  ultimately show "{''verified'', ''false'', ''unchecked''} \<subseteq> range getVerdictClass"
    by (metis (no_types, lifting) insert_subset empty_subsetI rangeI)
qed

text \<open>
  Claim C10. \<open>getVerdictClass\<close> gives a class for every verdict string, and the classes it
  gives are exactly \<open>verified\<close>, \<open>false\<close> and \<open>unchecked\<close>. On the upper-cased verdict the
  tests run in a fixed order: \<open>verified\<close> when it contains \<open>VERIFIED\<close> or \<open>TRUE\<close>,
  otherwise \<open>false\<close> when it contains \<open>FALSE\<close> or \<open>MISLEADING\<close>, otherwise \<open>unchecked\<close>
  (whether or not it contains \<open>UNCHECKED\<close> or \<open>NEEDS\<close>). So a verdict that contains both
  \<open>TRUE\<close> and \<open>FALSE\<close>, upper-cased or as given, is \<open>verified\<close>.
\<close>

theorem getVerdictClass_priority:
  "range getVerdictClass = {''verified'', ''false'', ''unchecked''}
   \<and> getVerdictClass str =
     (if sublist ''VERIFIED'' (toUpperCase str) \<or> sublist ''TRUE'' (toUpperCase str)
      then ''verified''
      else if sublist ''FALSE'' (toUpperCase str) \<or> sublist ''MISLEADING'' (toUpperCase str)
      then ''false''
      else ''unchecked'')
   \<and> (sublist ''TRUE'' (toUpperCase str) \<and> sublist ''FALSE'' (toUpperCase str)
        \<longrightarrow> getVerdictClass str = ''verified'')
   \<and> (sublist ''TRUE'' str \<and> sublist ''FALSE'' str
        \<longrightarrow> getVerdictClass str = ''verified'')"
proof -
  have up: "toUpperCase ''TRUE'' = ''TRUE''" by code_simp
  have "sublist ''TRUE'' str \<Longrightarrow> sublist ''TRUE'' (toUpperCase str)"
    using toUpperCase_sublist [of "''TRUE''" str] by (simp only: up)
  then show ?thesis
    using getVerdictClass_range getVerdictClass_cases [of str] by presburger
qed

theorem getVerdictClass_priority_witness:
  "sublist ''TRUE'' ''TRUE or FALSE'' \<and> sublist ''FALSE'' ''TRUE or FALSE''
   \<and> sublist ''TRUE'' (toUpperCase ''TRUE or FALSE'')
   \<and> sublist ''FALSE'' (toUpperCase ''TRUE or FALSE'')
   \<and> getVerdictClass ''TRUE or FALSE'' = ''verified''"
proof -
  have a: "sublist ''TRUE'' ''TRUE or FALSE''" by code_simp
  have b: "sublist ''FALSE'' ''TRUE or FALSE''" by code_simp
  have c: "sublist ''TRUE'' (toUpperCase ''TRUE or FALSE'')" by code_simp
  have d: "sublist ''FALSE'' (toUpperCase ''TRUE or FALSE'')" by code_simp
  from a b c d getVerdictClass_priority [of "''TRUE or FALSE''"] show ?thesis by blast
qed

section \<open>JournalistChat: what a submission changes\<close>

lemma handleSubmit_blank:
  "trim (claim_text s) = [] \<Longrightarrow>
   handleSubmit now resp s = s\<lparr>error := Some ''Please enter a claim to fact-check''\<rparr>"
  by (simp add: handleSubmit_def)

lemma handleSubmit_thrown:
  "trim (claim_text s) \<noteq> [] \<Longrightarrow> try_block now resp (trim (claim_text s)) (s\<lparr>loading := True, error := None\<rparr>) = Inl m \<Longrightarrow>
   handleSubmit now resp s = s\<lparr>error := Some m, loading := False\<rparr>"
  by (simp add: handleSubmit_def)

lemma handleSubmit_ok:
  "trim (claim_text s) \<noteq> [] \<Longrightarrow>
   handleSubmit now (OkData d) s =
     s\<lparr>claim_text := [], result := Some d, loading := False, error := None,
        history := \<lparr>h_claim = trim (claim_text s), h_result = d, h_timestamp = now\<rparr> # history s\<rparr>"
  by (simp add: handleSubmit_def try_block_def)

lemma try_block_failure:
  "\<forall>d. resp \<noteq> OkData d \<Longrightarrow> \<exists>m. try_block now resp c s = Inl m"
  by (cases resp) (simp_all add: try_block_def)

lemma handleSubmit_failure:
  assumes "\<forall>d. resp \<noteq> OkData d"
  shows "\<exists>m. handleSubmit now resp s = s\<lparr>error := Some m\<rparr>
           \<or> handleSubmit now resp s = s\<lparr>error := Some m, loading := False\<rparr>"
proof (cases "trim (claim_text s) = []")
  case True
  then show ?thesis using handleSubmit_blank by blast
next
  case False
  from try_block_failure [OF assms] obtain m
    where "try_block now resp (trim (claim_text s)) (s\<lparr>loading := True, error := None\<rparr>) = Inl m"
    by blast
  with False show ?thesis using handleSubmit_thrown by blast
qed

text \<open>
  Claim C9. A submission whose \<open>fetch\<close> fails or whose response is not ok (and likewise one
  whose ok response cannot be read) leaves the history, the displayed result and the claim
  input as they were and sets the error message; from the idle state, the only state in
  which the form can be submitted, the error message is the only field that differs
  afterwards. The claim input or the history changes only on a successful response to a
  non-blank claim, and then the input is cleared, the new entry (trimmed claim, result,
  time) is put in front of the history and the result is displayed.
\<close>

theorem handleSubmit_frame:
  "((\<forall>d. resp \<noteq> OkData d) \<longrightarrow>
      history (handleSubmit now resp s) = history s
      \<and> result (handleSubmit now resp s) = result s
      \<and> claim_text (handleSubmit now resp s) = claim_text s
      \<and> (\<exists>m. error (handleSubmit now resp s) = Some m)
      \<and> (\<not> loading s \<longrightarrow> (\<exists>m. handleSubmit now resp s = s\<lparr>error := Some m\<rparr>)))
   \<and> (claim_text (handleSubmit now resp s) \<noteq> claim_text s \<or> history (handleSubmit now resp s) \<noteq> history s
        \<longrightarrow> trim (claim_text s) \<noteq> [] \<and> (\<exists>d. resp = OkData d))
   \<and> (trim (claim_text s) \<noteq> [] \<and> resp = OkData d \<longrightarrow>
        claim_text (handleSubmit now resp s) = []
        \<and> history (handleSubmit now resp s) =
            \<lparr>h_claim = trim (claim_text s), h_result = d, h_timestamp = now\<rparr> # history s
        \<and> result (handleSubmit now resp s) = Some d)"
proof (intro conjI impI)
  assume fail: "\<forall>d. resp \<noteq> OkData d"
  from handleSubmit_failure [OF fail, of now s] obtain m
    where m: "handleSubmit now resp s = s\<lparr>error := Some m\<rparr>
              \<or> handleSubmit now resp s = s\<lparr>error := Some m, loading := False\<rparr>"
    by blast
  from m show "history (handleSubmit now resp s) = history s" by auto
  from m show "result (handleSubmit now resp s) = result s" by auto
  from m show "claim_text (handleSubmit now resp s) = claim_text s" by auto
  from m show "\<exists>m. error (handleSubmit now resp s) = Some m" by auto
  assume "\<not> loading s"
  then have "s\<lparr>error := Some m, loading := False\<rparr> = s\<lparr>error := Some m\<rparr>" by simp
  with m show "\<exists>m. handleSubmit now resp s = s\<lparr>error := Some m\<rparr>" by auto
next
  assume changed: "claim_text (handleSubmit now resp s) \<noteq> claim_text s
                   \<or> history (handleSubmit now resp s) \<noteq> history s"
  show "trim (claim_text s) \<noteq> []"
  proof
    assume "trim (claim_text s) = []"
    then have "handleSubmit now resp s = s\<lparr>error := Some ''Please enter a claim to fact-check''\<rparr>"
      by (rule handleSubmit_blank)
    with changed show False by simp
  qed
  show "\<exists>d. resp = OkData d"
  proof (rule ccontr)
    assume "\<nexists>d. resp = OkData d"
    then have "\<forall>d. resp \<noteq> OkData d" by blast
    from handleSubmit_failure [OF this, of now s] changed show False by auto
  qed
next
  assume ok: "trim (claim_text s) \<noteq> [] \<and> resp = OkData d"
  then have eq: "handleSubmit now resp s =
     s\<lparr>claim_text := [], result := Some d, loading := False, error := None,
        history := \<lparr>h_claim = trim (claim_text s), h_result = d, h_timestamp = now\<rparr> # history s\<rparr>"
    by (simp add: handleSubmit_ok)
  show "claim_text (handleSubmit now resp s) = []" by (simp add: eq)
  show "history (handleSubmit now resp s) =
          \<lparr>h_claim = trim (claim_text s), h_result = d, h_timestamp = now\<rparr> # history s"
    by (simp add: eq)
  show "result (handleSubmit now resp s) = Some d" by (simp add: eq)
qed

theorem handleSubmit_frame_witness:
  "(\<forall>d. NotOk 500 (Some ''Gemini rate limit exceeded'') \<noteq> OkData (d::nat))
   \<and> \<not> loading chat0
   \<and> handleSubmit ''t1'' (NotOk 500 (Some ''Gemini rate limit exceeded'')) chat0
       = chat0\<lparr>error := Some (warning_sign @ '' Rate limit reached. Please wait a moment and try again.'')\<rparr>
   \<and> trim (claim_text chat0) \<noteq> []
   \<and> claim_text (handleSubmit ''t1'' (OkData 9) chat0) \<noteq> claim_text chat0
   \<and> history (handleSubmit ''t1'' (OkData 9) chat0)
       = [\<lparr>h_claim = ''Coffee reduces heart disease'', h_result = 9, h_timestamp = ''t1''\<rparr>,
          \<lparr>h_claim = ''old'', h_result = 7, h_timestamp = ''t0''\<rparr>]"
proof -
  let ?bad = "NotOk 500 (Some ''Gemini rate limit exceeded'') :: nat response"
  have a: "\<forall>d. ?bad \<noteq> OkData (d::nat)" by simp
  have b: "\<not> loading chat0" by (simp add: chat0_def)
  have c: "trim (claim_text chat0) \<noteq> []" unfolding chat0_def by code_simp
  have t: "trim (claim_text chat0) = ''Coffee reduces heart disease''" unfolding chat0_def by code_simp
  have e: "error (handleSubmit ''t1'' ?bad chat0)
            = Some (warning_sign @ '' Rate limit reached. Please wait a moment and try again.'')"
    unfolding chat0_def by code_simp
  from handleSubmit_frame [of ?bad "''t1''" chat0 9] a b
  obtain m where m: "handleSubmit ''t1'' ?bad chat0 = chat0\<lparr>error := Some m\<rparr>" by blast
  with e have bad: "handleSubmit ''t1'' ?bad chat0
       = chat0\<lparr>error := Some (warning_sign @ '' Rate limit reached. Please wait a moment and try again.'')\<rparr>"
    by simp
  from handleSubmit_frame [of "OkData 9" "''t1''" chat0 9] c
  have ok: "claim_text (handleSubmit ''t1'' (OkData 9) chat0) = []
        \<and> history (handleSubmit ''t1'' (OkData 9) chat0) =
            \<lparr>h_claim = trim (claim_text chat0), h_result = 9, h_timestamp = ''t1''\<rparr> # history chat0"
    by blast
  have ne: "claim_text chat0 \<noteq> []" by (simp add: chat0_def)
  from a b bad c ok ne t show ?thesis by (simp add: chat0_def)
qed

section \<open>The retry controller\<close>

lemma retry_delays_from:
  "retry op k n = (r, ds) \<Longrightarrow> ds = map delay [k..<k + length ds]"
proof (induction n arbitrary: k r ds)
  case 0
  then show ?case by (auto split: attempt.splits)
next
  case (Suc n)
  show ?case
  proof (cases "op k")
    case (Returned r')
    with Suc.prems show ?thesis by simp
  next
    case (Raised f)
    show ?thesis
    proof (cases "transient f")
      case False
      with Raised Suc.prems show ?thesis by simp
    next
      case True
      obtain r' ds' where rec: "retry op (Suc k) n = (r', ds')"
        by (cases "retry op (Suc k) n")
      with Raised True Suc.prems have ds: "ds = delay k # ds'" by simp
      have "[k..<k + Suc (length ds')] = k # [Suc k..<k + Suc (length ds')]"
        by (rule upt_conv_Cons) simp
      moreover have "k + Suc (length ds') = Suc k + length ds'" by simp
      ultimately have "[k..<k + Suc (length ds')] = k # [Suc k..<Suc k + length ds']"
        by (simp only:)
      moreover have "length ds = Suc (length ds')" by (simp add: ds)
      ultimately have "map delay [k..<k + length ds] = delay k # map delay [Suc k..<Suc k + length ds']"
        by (simp only: list.map)
      also have "map delay [Suc k..<Suc k + length ds'] = ds'"
        using Suc.IH [OF rec] by (rule sym)
      finally show ?thesis by (simp only: ds)
    qed
  qed
qed

lemma retry_delays: "snd (retry op k n) = map delay [k..<k + length (snd (retry op k n))]"
  by (rule retry_delays_from) (rule prod.collapse [symmetric])

lemma retry_delays_length: "length (snd (retry op k n)) \<le> n"
proof (induction n arbitrary: k)
  case 0
  show ?case by (simp split: attempt.split)
next
  case (Suc n)
  from Suc.IH [of "Suc k"] show ?case
    by (cases "retry op (Suc k) n") (simp split: attempt.split)
qed

lemma withRetry_delay_nth:
  assumes "i < length (snd (withRetry op m))"
  shows "snd (withRetry op m) ! i = base_delay * 2 ^ i"
proof -
  let ?ds = "snd (retry op 0 (m - 1))"
  have "?ds = map delay [0..<0 + length ?ds]" by (rule retry_delays)
  then have "?ds ! i = map delay [0..<length ?ds] ! i" by simp
  also have "\<dots> = delay i" using assms by (simp add: withRetry_def)
  finally show ?thesis by (simp add: withRetry_def delay_def)
qed

lemma three_attempts: "withRetry op 3 = retry op 0 (Suc (Suc 0))"
  by (simp add: withRetry_def numeral_2_eq_2)

lemma withRetry_twice_then_ok:
  assumes "op 0 = Raised f0" "transient f0" "op 1 = Raised f1" "transient f1"
    and "op 2 = Returned r"
  shows "withRetry op 3 = (r, [base_delay, 2 * base_delay])"
proof -
  have third: "op (Suc (Suc 0)) = Returned r" using assms(5) by (simp add: numeral_2_eq_2)
  have second: "op (Suc 0) = Raised f1" using assms(3) by simp
  have "retry op (Suc (Suc 0)) 0 = (r, [])" by (simp add: third)
  then have "retry op (Suc 0) (Suc 0) = (r, [delay (Suc 0)])"
    using second assms(4) by simp
  then have "retry op 0 (Suc (Suc 0)) = (r, [delay 0, delay (Suc 0)])"
    using assms(1,2) by simp
  then show ?thesis by (simp add: three_attempts delay_def)
qed

lemma withRetry_exhausted:
  assumes "op 0 = Raised f0" "transient f0" "op 1 = Raised f1" "transient f1"
    and "op 2 = Raised f2"
  shows "withRetry op 3 = (Unavailable f2, [base_delay, 2 * base_delay])"
proof -
  have third: "op (Suc (Suc 0)) = Raised f2" using assms(5) by (simp add: numeral_2_eq_2)
  have second: "op (Suc 0) = Raised f1" using assms(3) by simp
  have "retry op (Suc (Suc 0)) 0 = (Unavailable f2, [])" by (simp add: third)
  then have "retry op (Suc 0) (Suc 0) = (Unavailable f2, [delay (Suc 0)])"
    using second assms(4) by simp
  then have "retry op 0 (Suc (Suc 0)) = (Unavailable f2, [delay 0, delay (Suc 0)])"
    using assms(1,2) by simp
  then show ?thesis by (simp add: three_attempts delay_def)
qed

text \<open>
  Claim C5. With \<open>maxAttempts = 3\<close>, an operation that fails transiently on its first two
  invocations and returns on the third yields what the third invocation returned; one that
  fails transiently on the first two and fails again on the third yields
  \<open>Unavailable\<close> with the last failure as a result, nothing being raised. In both cases the
  delays slept are the base and twice the base, and for every operation and every bound
  the \<open>i\<close>-th delay is the base doubled \<open>i\<close> times (the sequence starts 2, 4, 8), at most
  \<open>maxAttempts\<close> invocations being made (one when \<open>maxAttempts\<close> is 0).
\<close>

theorem withRetry_bound:
  "(op 0 = Raised f0 \<and> transient f0 \<and> op 1 = Raised f1 \<and> transient f1 \<and> op 2 = Returned r
      \<longrightarrow> withRetry op 3 = (r, [base_delay, 2 * base_delay]))
   \<and> (op 0 = Raised f0 \<and> transient f0 \<and> op 1 = Raised f1 \<and> transient f1 \<and> op 2 = Raised f2
      \<longrightarrow> withRetry op 3 = (Unavailable f2, [base_delay, 2 * base_delay]))
   \<and> (\<forall>i < length (snd (withRetry op m)). snd (withRetry op m) ! i = base_delay * 2 ^ i)
   \<and> invocations (withRetry op m) \<le> max 1 m
   \<and> map delay [0, 1, 2] = [2, 4, 8]"
proof (intro conjI impI allI)
  assume "op 0 = Raised f0 \<and> transient f0 \<and> op 1 = Raised f1 \<and> transient f1 \<and> op 2 = Returned r"
  then show "withRetry op 3 = (r, [base_delay, 2 * base_delay])"
    using withRetry_twice_then_ok by blast
next
  assume "op 0 = Raised f0 \<and> transient f0 \<and> op 1 = Raised f1 \<and> transient f1 \<and> op 2 = Raised f2"
  then show "withRetry op 3 = (Unavailable f2, [base_delay, 2 * base_delay])"
    using withRetry_exhausted by blast
next
  fix i
  assume "i < length (snd (withRetry op m))"
  then show "snd (withRetry op m) ! i = base_delay * 2 ^ i" by (rule withRetry_delay_nth)
next
  have "length (snd (retry op 0 (m - 1))) \<le> m - 1" by (rule retry_delays_length)
  then show "invocations (withRetry op m) \<le> max 1 m"
    by (simp add: invocations_def withRetry_def)
next
  show "map delay [0, 1, 2] = [2, 4, 8]" by (simp add: delay_def base_delay_def)
qed

theorem withRetry_bound_witness:
  "flaky_op 0 = Raised RateLimited \<and> transient RateLimited
   \<and> flaky_op 1 = Raised NetworkTimeout \<and> transient NetworkTimeout
   \<and> flaky_op 2 = Returned (AiAnalysis ''Likely false.'')
   \<and> withRetry flaky_op 3 = (AiAnalysis ''Likely false.'', [2, 4])
   \<and> down_op 0 = Raised RateLimited \<and> down_op 1 = Raised RateLimited
   \<and> down_op 2 = Raised RateLimited
   \<and> withRetry down_op 3 = (Unavailable RateLimited, [2, 4])
   \<and> 1 < length (snd (withRetry down_op 3))
   \<and> snd (withRetry down_op 3) ! 1 = 4"
proof -
  have f: "flaky_op 0 = Raised RateLimited" "flaky_op 1 = Raised NetworkTimeout"
    "flaky_op 2 = Returned (AiAnalysis ''Likely false.'')"
    by (simp_all add: flaky_op_def)
  have d: "down_op 0 = Raised RateLimited" "down_op 1 = Raised RateLimited"
    "down_op 2 = Raised RateLimited"
    by (simp_all add: down_op_def)
  have t: "transient RateLimited" "transient NetworkTimeout" by simp_all
  from withRetry_bound [of flaky_op RateLimited NetworkTimeout "AiAnalysis ''Likely false.''"] f t
  have 1: "withRetry flaky_op 3 = (AiAnalysis ''Likely false.'', [2, 4])"
    by (simp add: base_delay_def)
  from withRetry_bound [of down_op RateLimited RateLimited _ RateLimited] d t
  have 2: "withRetry down_op 3 = (Unavailable RateLimited, [2, 4])"
    by (simp add: base_delay_def)
  from f d t 1 2 show ?thesis by simp
qed

section \<open>Normal forms and cache keys\<close>

lemma py_space_toLowerCase: "py_space (toLowerCase_char c) = py_space c"
proof (cases "toLowerCase_char c = c")
  case True
  then show ?thesis by simp
next
  case False
  then have "c \<in> set ''ABCDEFGHIJKLMNOPQRSTUVWXYZ''"
    by (auto simp: toLowerCase_char_def split: if_splits)
  then have "\<not> py_space c" "\<not> py_space (toLowerCase_char c)"
    by (auto simp: toLowerCase_char_def py_space_def)
  then show ?thesis by simp
qed

lemma dropWhile_lower: "dropWhile py_space (lower s) = lower (dropWhile py_space s)"
  by (induction s) (simp_all add: lower_def py_space_toLowerCase)

lemma strip_lower: "strip (lower claim) = lower (strip claim)"
proof -
  have "rev (lower s) = lower (rev s)" for s by (simp add: lower_def rev_map)
  then show ?thesis by (simp add: strip_def dropWhile_lower)
qed

lemma get_cache_key_normalize: "get_cache_key md5 claim = md5 (normalize claim)"
  by (simp add: get_cache_key_def normalize_def strip_lower)

lemma normalize_blank: "normalize claim = [] \<longleftrightarrow> strip claim = []"
  by (simp add: normalize_def lower_def)

section \<open>The engine, call by call\<close>

lemma factCheck_blank:
  "strip claim = [] \<Longrightarrow>
   factCheck md5 A now stored_at claim fact_check_cache =
     \<lparr>returned = Inl (CallerInputError ''claim''), cache_after = fact_check_cache, calls = []\<rparr>"
  by (simp add: factCheck_def)

lemma factCheck_hit:
  "strip claim \<noteq> [] \<Longrightarrow>
   cache_get fact_check_cache (get_cache_key md5 claim) now = Some data \<Longrightarrow>
   factCheck md5 A now stored_at claim fact_check_cache =
     \<lparr>returned = Inr data, cache_after = fact_check_cache, calls = []\<rparr>"
  by (simp add: factCheck_def fact_check_with_newsdata_def)

lemma factCheck_miss:
  "strip claim \<noteq> [] \<Longrightarrow>
   cache_get fact_check_cache (get_cache_key md5 claim) now = None \<Longrightarrow>
   factCheck md5 A now stored_at claim fact_check_cache =
     \<lparr>returned = Inr (fst (run_sources A claim)),
      cache_after = cache_put fact_check_cache (get_cache_key md5 claim)
                      (fst (run_sources A claim)) stored_at,
      calls = snd (run_sources A claim)\<rparr>"
  by (simp add: factCheck_def fact_check_with_newsdata_def split: prod.split)

lemma cache_get_fresh:
  "fact_check_cache cache_key = Some (data, timestamp) \<Longrightarrow> now - timestamp < ttl \<Longrightarrow>
   cache_get fact_check_cache cache_key now = Some data"
  by (simp add: cache_get_def)

lemma cache_get_Some:
  "cache_get fact_check_cache cache_key now = Some data \<Longrightarrow>
   \<exists>timestamp. fact_check_cache cache_key = Some (data, timestamp) \<and> now - timestamp < ttl"
  by (auto simp: cache_get_def split: option.splits if_splits)

text \<open>
  After a call with a non-blank claim the cache holds, under the claim's key, the Verdict
  the call returned; the entry was stored by this call when the call was a miss.
\<close>

lemma factCheck_entry:
  assumes "strip claim \<noteq> []"
  shows "\<exists>data timestamp.
           returned (factCheck md5 A now stored_at claim fact_check_cache) = Inr data
           \<and> cache_after (factCheck md5 A now stored_at claim fact_check_cache)
                (get_cache_key md5 claim) = Some (data, timestamp)
           \<and> (cache_get fact_check_cache (get_cache_key md5 claim) now = None
                \<longrightarrow> timestamp = stored_at)"
proof (cases "cache_get fact_check_cache (get_cache_key md5 claim) now")
  case None
  with assms show ?thesis by (simp add: factCheck_miss cache_put_def)
next
  case (Some cached)
  from cache_get_Some [OF Some] obtain timestamp
    where "fact_check_cache (get_cache_key md5 claim) = Some (cached, timestamp)"
      and "now - timestamp < ttl"
    by blast
  with assms Some show ?thesis by (simp add: factCheck_hit)
qed

text \<open>
  A call whose key finds a fresh entry returns the stored Verdict, leaves the cache as it
  is and invokes no adapter, whatever the adapters are.
\<close>

lemma factCheck_fresh:
  assumes "strip claim \<noteq> []"
    and "fact_check_cache (get_cache_key md5 claim) = Some (data, timestamp)"
    and "now - timestamp < ttl"
  shows "factCheck md5 A now stored_at claim fact_check_cache =
           \<lparr>returned = Inr data, cache_after = fact_check_cache, calls = []\<rparr>"
  using assms by (simp add: factCheck_hit cache_get_fresh)

text \<open>Adapters are invoked only for a claim that is not blank and not answered from the cache.\<close>

lemma factCheck_invoked:
  assumes "calls (factCheck md5 A now stored_at claim fact_check_cache) \<noteq> []"
  shows "strip claim \<noteq> []"
    and "cache_get fact_check_cache (get_cache_key md5 claim) now = None"
proof -
  show given: "strip claim \<noteq> []"
  proof
    assume "strip claim = []"
    then have "calls (factCheck md5 A now stored_at claim fact_check_cache) = []"
      by (simp add: factCheck_blank)
    with assms show False by simp
  qed
  show "cache_get fact_check_cache (get_cache_key md5 claim) now = None"
  proof (cases "cache_get fact_check_cache (get_cache_key md5 claim) now")
    case None
    then show ?thesis .
  next
    case (Some data)
    have "calls (factCheck md5 A now stored_at claim fact_check_cache) = []"
      by (simp add: factCheck_hit [OF given Some])
    with assms show ?thesis by simp
  qed
qed

section \<open>Rejection, idempotence and fingerprints\<close>

lemma strip_blank_examples: "strip [] = []" "strip ''   '' = []"
  by (simp_all add: strip_def py_space_def)

text \<open>
  Claim C2. \<open>factCheck\<close> rejects exactly when the claim is empty after trimming. It then
  returns the caller-input error that names the field \<open>claim\<close>, invokes no adapter and
  leaves the cache alone; the empty claim and the claim of three spaces are rejected in this
  way. For every other claim it returns a Verdict, whatever the adapters do.
\<close>

theorem factCheck_rejects:
  "((\<exists>e. returned (factCheck md5 A now stored_at claim cache0) = Inl e) \<longleftrightarrow> strip claim = [])
   \<and> (strip claim = [] \<longrightarrow>
        factCheck md5 A now stored_at claim cache0 =
          \<lparr>returned = Inl (CallerInputError ''claim''), cache_after = cache0, calls = []\<rparr>)
   \<and> factCheck md5 A now stored_at [] cache0 =
        \<lparr>returned = Inl (CallerInputError ''claim''), cache_after = cache0, calls = []\<rparr>
   \<and> factCheck md5 A now stored_at ''   '' cache0 =
        \<lparr>returned = Inl (CallerInputError ''claim''), cache_after = cache0, calls = []\<rparr>
   \<and> (strip claim \<noteq> [] \<longrightarrow>
        (\<exists>data. returned (factCheck md5 A now stored_at claim cache0) = Inr data))"
proof -
  have ok: "\<exists>data. returned (factCheck md5 A now stored_at claim cache0) = Inr data"
    if "strip claim \<noteq> []"
    using factCheck_entry [OF that, of md5 A now stored_at cache0] by blast
  have rej: "returned (factCheck md5 A now stored_at claim cache0) = Inl (CallerInputError ''claim'')"
    if "strip claim = []"
    using that by (simp add: factCheck_blank)
  have "(\<exists>e. returned (factCheck md5 A now stored_at claim cache0) = Inl e) \<longleftrightarrow> strip claim = []"
  proof
    assume "\<exists>e. returned (factCheck md5 A now stored_at claim cache0) = Inl e"
    with ok show "strip claim = []" by fastforce
  next
    assume "strip claim = []"
    with rej show "\<exists>e. returned (factCheck md5 A now stored_at claim cache0) = Inl e" by blast
  qed
  then show ?thesis
    using ok by (simp add: factCheck_blank strip_blank_examples)
qed

theorem factCheck_rejects_witness:
  "strip [CHR 0x09, CHR '' '', CHR 0x0A] = []
   \<and> calls (factCheck plain_key scenario 0 1 [CHR 0x09, CHR '' '', CHR 0x0A] Map.empty) = []
   \<and> returned (factCheck plain_key scenario 0 1 [CHR 0x09, CHR '' '', CHR 0x0A] Map.empty)
       = Inl (CallerInputError ''claim'')
   \<and> strip ''Coffee is good'' \<noteq> []
   \<and> (\<exists>data. returned (factCheck plain_key all_down 0 1 ''Coffee is good'' Map.empty) = Inr data)"
proof -
  have blank: "strip [CHR 0x09, CHR '' '', CHR 0x0A] = []" by code_simp
  have given: "strip ''Coffee is good'' \<noteq> []" by code_simp
  from blank factCheck_rejects [of plain_key scenario 0 1 "[CHR 0x09, CHR '' '', CHR 0x0A]" Map.empty]
  have "factCheck plain_key scenario 0 1 [CHR 0x09, CHR '' '', CHR 0x0A] Map.empty =
          \<lparr>returned = Inl (CallerInputError ''claim''), cache_after = Map.empty, calls = []\<rparr>"
    by blast
  then have 1: "calls (factCheck plain_key scenario 0 1 [CHR 0x09, CHR '' '', CHR 0x0A] Map.empty) = []"
    and 2: "returned (factCheck plain_key scenario 0 1 [CHR 0x09, CHR '' '', CHR 0x0A] Map.empty)
              = Inl (CallerInputError ''claim'')"
    by simp_all
  from given factCheck_rejects [of plain_key all_down 0 1 "''Coffee is good''" Map.empty]
  have 3: "\<exists>data. returned (factCheck plain_key all_down 0 1 ''Coffee is good'' Map.empty) = Inr data"
    by blast
  from blank given 1 2 3 show ?thesis by blast
qed

text \<open>
  A second call, for a claim with the same cache key, made while the entry the first call
  left is fresh.
\<close>

lemma factCheck_again:
  assumes c1: "strip c1 \<noteq> []" and c2: "strip c2 \<noteq> []"
    and key: "get_cache_key md5 c1 = get_cache_key md5 c2"
  shows "\<exists>data timestamp.
           returned (factCheck md5 A now stored_at c1 cache0) = Inr data
           \<and> cache_after (factCheck md5 A now stored_at c1 cache0) (get_cache_key md5 c1)
               = Some (data, timestamp)
           \<and> (cache_get cache0 (get_cache_key md5 c1) now = None \<longrightarrow> timestamp = stored_at)
           \<and> (\<forall>B now2 stored_at2. now2 - timestamp < 3600 \<longrightarrow>
                 factCheck md5 B now2 stored_at2 c2 (cache_after (factCheck md5 A now stored_at c1 cache0))
                 = \<lparr>returned = Inr data,
                    cache_after = cache_after (factCheck md5 A now stored_at c1 cache0),
                    calls = []\<rparr>)"
proof -
  let ?first = "factCheck md5 A now stored_at c1 cache0"
  from factCheck_entry [OF c1, of md5 A now stored_at cache0] obtain data timestamp
    where ret: "returned ?first = Inr data"
      and entry: "cache_after ?first (get_cache_key md5 c1) = Some (data, timestamp)"
      and miss: "cache_get cache0 (get_cache_key md5 c1) now = None \<longrightarrow> timestamp = stored_at"
    by (elim exE conjE)
  have again: "factCheck md5 B now2 stored_at2 c2 (cache_after ?first)
          = \<lparr>returned = Inr data, cache_after = cache_after ?first, calls = []\<rparr>"
    if "now2 - timestamp < 3600" for B now2 stored_at2
  proof (rule factCheck_fresh [OF c2])
    show "cache_after ?first (get_cache_key md5 c2) = Some (data, timestamp)"
      using entry key by simp
    show "now2 - timestamp < ttl" using that by (simp add: ttl_def)
  qed
  show ?thesis
  proof (intro exI conjI allI impI)
    show "returned ?first = Inr data" by (rule ret)
    show "cache_after ?first (get_cache_key md5 c1) = Some (data, timestamp)" by (rule entry)
    show "timestamp = stored_at" if "cache_get cache0 (get_cache_key md5 c1) now = None"
      using miss that by simp
    show "factCheck md5 B now2 stored_at2 c2 (cache_after ?first)
          = \<lparr>returned = Inr data, cache_after = cache_after ?first, calls = []\<rparr>"
      if "now2 - timestamp < 3600" for B now2 stored_at2
      using that by (rule again)
  qed
qed

text \<open>
  Claim C3. For every claim that is not blank, the first call returns a Verdict and leaves
  it in the cache with a time stamp (the time of the store, when the call was a miss), and
  every second call for the same claim made less than 3600 time units after that time
  stamp returns the same Verdict, invokes no adapter, whichever adapters it is given, and
  leaves the cache as it is.
\<close>

theorem factCheck_idempotent:
  "strip claim \<noteq> [] \<longrightarrow>
     (\<exists>data timestamp.
        returned (factCheck md5 A now stored_at claim cache0) = Inr data
        \<and> cache_after (factCheck md5 A now stored_at claim cache0) (get_cache_key md5 claim)
            = Some (data, timestamp)
        \<and> (cache_get cache0 (get_cache_key md5 claim) now = None \<longrightarrow> timestamp = stored_at)
        \<and> (\<forall>B now2 stored_at2. now2 - timestamp < 3600 \<longrightarrow>
              factCheck md5 B now2 stored_at2 claim (cache_after (factCheck md5 A now stored_at claim cache0))
              = \<lparr>returned = Inr data,
                 cache_after = cache_after (factCheck md5 A now stored_at claim cache0),
                 calls = []\<rparr>))"
proof
  assume given: "strip claim \<noteq> []"
  show "\<exists>data timestamp.
        returned (factCheck md5 A now stored_at claim cache0) = Inr data
        \<and> cache_after (factCheck md5 A now stored_at claim cache0) (get_cache_key md5 claim)
            = Some (data, timestamp)
        \<and> (cache_get cache0 (get_cache_key md5 claim) now = None \<longrightarrow> timestamp = stored_at)
        \<and> (\<forall>B now2 stored_at2. now2 - timestamp < 3600 \<longrightarrow>
              factCheck md5 B now2 stored_at2 claim (cache_after (factCheck md5 A now stored_at claim cache0))
              = \<lparr>returned = Inr data,
                 cache_after = cache_after (factCheck md5 A now stored_at claim cache0),
                 calls = []\<rparr>)"
    by (rule factCheck_again) (simp_all add: given)
qed

theorem factCheck_idempotent_witness:
  "strip ''Vaccines cause autism'' \<noteq> []
   \<and> cache_get Map.empty (get_cache_key plain_key ''Vaccines cause autism'') 0 = None
   \<and> (3600::real) - 1 < 3600
   \<and> calls (factCheck plain_key scenario 0 1 ''Vaccines cause autism'' Map.empty)
       = [FactCheckAdapter, NewsAdapter, AiAdapter]
   \<and> calls (factCheck plain_key all_down 3600 3601 ''Vaccines cause autism''
              (cache_after (factCheck plain_key scenario 0 1 ''Vaccines cause autism'' Map.empty)))
       = []
   \<and> Inr (returned (factCheck plain_key all_down 3600 3601 ''Vaccines cause autism''
              (cache_after (factCheck plain_key scenario 0 1 ''Vaccines cause autism'' Map.empty))))
       = Inr (returned (factCheck plain_key scenario 0 1 ''Vaccines cause autism'' Map.empty))"
proof -
  let ?c = "''Vaccines cause autism''"
  let ?first = "factCheck plain_key scenario 0 1 ?c Map.empty"
  have given: "strip ?c \<noteq> []" by code_simp
  have miss: "cache_get Map.empty (get_cache_key plain_key ?c) 0 = None"
    by (simp add: cache_get_def)
  have inside: "(3600::real) - 1 < 3600" by simp
  have invoked: "calls ?first = [FactCheckAdapter, NewsAdapter, AiAdapter]" by code_simp
  from factCheck_idempotent [of ?c plain_key scenario 0 1 Map.empty] given miss
  obtain data where "returned ?first = Inr data"
    and "\<forall>B now2 stored_at2. now2 - 1 < 3600 \<longrightarrow>
           factCheck plain_key B now2 stored_at2 ?c (cache_after ?first)
           = \<lparr>returned = Inr data, cache_after = cache_after ?first, calls = []\<rparr>"
    by blast
  with inside have "factCheck plain_key all_down 3600 3601 ?c (cache_after ?first)
           = \<lparr>returned = returned ?first, cache_after = cache_after ?first, calls = []\<rparr>"
    by simp
  then have "calls (factCheck plain_key all_down 3600 3601 ?c (cache_after ?first)) = []"
    and "returned (factCheck plain_key all_down 3600 3601 ?c (cache_after ?first)) = returned ?first"
    by simp_all
  with given miss inside invoked show ?thesis by simp
qed

text \<open>
  Claim C4. Two claims with the same normal form (trimmed and lower-cased) have the same
  fingerprint, whatever the digest, and so look up the same cache entry: once \<open>factCheck\<close>
  has answered the first, a call for the second inside the entry's 3600 time units returns
  the Verdict stored for the first and invokes no adapter. (The code lower-cases before it
  trims; both orders give the same normal form.)
\<close>

theorem fingerprint_equivalence:
  "normalize c1 = normalize c2 \<longrightarrow>
     get_cache_key md5 c1 = get_cache_key md5 c2
     \<and> cache_get cache0 (get_cache_key md5 c1) now = cache_get cache0 (get_cache_key md5 c2) now
     \<and> (strip c1 \<noteq> [] \<longrightarrow>
          (\<exists>data timestamp.
             returned (factCheck md5 A now stored_at c1 cache0) = Inr data
             \<and> cache_after (factCheck md5 A now stored_at c1 cache0) (get_cache_key md5 c1)
                 = Some (data, timestamp)
             \<and> (cache_get cache0 (get_cache_key md5 c1) now = None \<longrightarrow> timestamp = stored_at)
             \<and> (\<forall>B now2 stored_at2. now2 - timestamp < 3600 \<longrightarrow>
                   factCheck md5 B now2 stored_at2 c2
                     (cache_after (factCheck md5 A now stored_at c1 cache0))
                   = \<lparr>returned = Inr data,
                      cache_after = cache_after (factCheck md5 A now stored_at c1 cache0),
                      calls = []\<rparr>)))"
proof
  assume same: "normalize c1 = normalize c2"
  then have key: "get_cache_key md5 c1 = get_cache_key md5 c2"
    by (simp add: get_cache_key_normalize)
  have blank: "strip c2 \<noteq> []" if "strip c1 \<noteq> []"
    using that same normalize_blank [of c1] normalize_blank [of c2] by simp
  show "get_cache_key md5 c1 = get_cache_key md5 c2
     \<and> cache_get cache0 (get_cache_key md5 c1) now = cache_get cache0 (get_cache_key md5 c2) now
     \<and> (strip c1 \<noteq> [] \<longrightarrow>
          (\<exists>data timestamp.
             returned (factCheck md5 A now stored_at c1 cache0) = Inr data
             \<and> cache_after (factCheck md5 A now stored_at c1 cache0) (get_cache_key md5 c1)
                 = Some (data, timestamp)
             \<and> (cache_get cache0 (get_cache_key md5 c1) now = None \<longrightarrow> timestamp = stored_at)
             \<and> (\<forall>B now2 stored_at2. now2 - timestamp < 3600 \<longrightarrow>
                   factCheck md5 B now2 stored_at2 c2
                     (cache_after (factCheck md5 A now stored_at c1 cache0))
                   = \<lparr>returned = Inr data,
                      cache_after = cache_after (factCheck md5 A now stored_at c1 cache0),
                      calls = []\<rparr>)))"
  proof (intro conjI impI)
    show "get_cache_key md5 c1 = get_cache_key md5 c2" by (rule key)
    show "cache_get cache0 (get_cache_key md5 c1) now = cache_get cache0 (get_cache_key md5 c2) now"
      by (simp only: key)
    assume given: "strip c1 \<noteq> []"
    show "\<exists>data timestamp.
             returned (factCheck md5 A now stored_at c1 cache0) = Inr data
             \<and> cache_after (factCheck md5 A now stored_at c1 cache0) (get_cache_key md5 c1)
                 = Some (data, timestamp)
             \<and> (cache_get cache0 (get_cache_key md5 c1) now = None \<longrightarrow> timestamp = stored_at)
             \<and> (\<forall>B now2 stored_at2. now2 - timestamp < 3600 \<longrightarrow>
                   factCheck md5 B now2 stored_at2 c2
                     (cache_after (factCheck md5 A now stored_at c1 cache0))
                   = \<lparr>returned = Inr data,
                      cache_after = cache_after (factCheck md5 A now stored_at c1 cache0),
                      calls = []\<rparr>)"
      by (rule factCheck_again [OF given blank [OF given] key])
  qed
qed

theorem fingerprint_equivalence_witness:
  "normalize ''Coffee Is Good  '' = normalize ''coffee is good''
   \<and> strip ''Coffee Is Good  '' \<noteq> []
   \<and> (\<forall>md5 :: string \<Rightarrow> string.
        get_cache_key md5 ''Coffee Is Good  '' = get_cache_key md5 ''coffee is good'')
   \<and> calls (factCheck plain_key all_down 100 101 ''coffee is good''
              (cache_after (factCheck plain_key scenario 0 1 ''Coffee Is Good  '' Map.empty)))
       = []
   \<and> Inr (returned (factCheck plain_key all_down 100 101 ''coffee is good''
              (cache_after (factCheck plain_key scenario 0 1 ''Coffee Is Good  '' Map.empty))))
       = Inr (returned (factCheck plain_key scenario 0 1 ''Coffee Is Good  '' Map.empty))"
proof -
  let ?c1 = "''Coffee Is Good  ''" and ?c2 = "''coffee is good''"
  let ?first = "factCheck plain_key scenario 0 1 ?c1 Map.empty"
  have same: "normalize ?c1 = normalize ?c2" by code_simp
  have given: "strip ?c1 \<noteq> []" by code_simp
  have keys: "get_cache_key md5 ?c1 = get_cache_key md5 ?c2" for md5 :: "string \<Rightarrow> string"
    using fingerprint_equivalence [of ?c1 ?c2 md5] same by blast
  have miss: "cache_get Map.empty (get_cache_key plain_key ?c1) 0 = None"
    by (simp add: cache_get_def)
  from fingerprint_equivalence [of ?c1 ?c2 plain_key Map.empty 0 scenario 1] same given
  have "\<exists>data timestamp.
          returned ?first = Inr data
          \<and> cache_after ?first (get_cache_key plain_key ?c1) = Some (data, timestamp)
          \<and> (cache_get Map.empty (get_cache_key plain_key ?c1) 0 = None \<longrightarrow> timestamp = 1)
          \<and> (\<forall>B now2 stored_at2. now2 - timestamp < 3600 \<longrightarrow>
                factCheck plain_key B now2 stored_at2 ?c2 (cache_after ?first)
                = \<lparr>returned = Inr data, cache_after = cache_after ?first, calls = []\<rparr>)"
    by (elim impE conjE) assumption+
  then obtain data timestamp where ret: "returned ?first = Inr data"
    and stamp: "cache_get Map.empty (get_cache_key plain_key ?c1) 0 = None \<longrightarrow> timestamp = 1"
    and again: "\<forall>B now2 stored_at2. now2 - timestamp < 3600 \<longrightarrow>
                factCheck plain_key B now2 stored_at2 ?c2 (cache_after ?first)
                = \<lparr>returned = Inr data, cache_after = cache_after ?first, calls = []\<rparr>"
    by (elim exE conjE)
  from stamp miss have "timestamp = 1" by simp
  with again have "factCheck plain_key all_down 100 101 ?c2 (cache_after ?first)
                = \<lparr>returned = Inr data, cache_after = cache_after ?first, calls = []\<rparr>"
    by simp
  with ret have "calls (factCheck plain_key all_down 100 101 ?c2 (cache_after ?first)) = []"
    and "returned (factCheck plain_key all_down 100 101 ?c2 (cache_after ?first)) = returned ?first"
    by simp_all
  with same given keys show ?thesis by simp
qed

section \<open>Deduplication\<close>

lemma dedup_from_keys:
  "set (map article_key (dedup_from seen as)) = set (map article_key as) - set seen"
  by (induction as arbitrary: seen) auto

lemma dedup_from_distinct: "distinct (map article_key (dedup_from seen as))"
  by (induction as arbitrary: seen) (auto simp: dedup_from_keys simp del: set_map)

lemma dedup_from_subseq: "subseq (dedup_from seen as) as"
  by (induction as arbitrary: seen) auto

lemma dedup_from_find:
  "k \<notin> set seen \<Longrightarrow>
   find (\<lambda>x. article_key x = k) (dedup_from seen as) = find (\<lambda>x. article_key x = k) as"
proof (induction as arbitrary: seen)
  case Nil
  show ?case by simp
next
  case (Cons a as)
  show ?case
  proof (cases "article_key a \<in> set seen")
    case True
    with Cons.prems have "article_key a \<noteq> k" by auto
    with True Cons.IH [OF Cons.prems] show ?thesis by simp
  next
    case False
    show ?thesis
    proof (cases "article_key a = k")
      case True
      with False show ?thesis by simp
    next
      case ne: False
      with Cons.prems have "k \<notin> set (article_key a # seen)" by auto
      from Cons.IH [OF this] False ne show ?thesis by simp
    qed
  qed
qed

lemma distinct_key_once:
  "distinct (map f xs) \<Longrightarrow> k \<in> set (map f xs) \<Longrightarrow> length (filter (\<lambda>x. f x = k) xs) = 1"
proof (induction xs)
  case Nil
  then show ?case by simp
next
  case (Cons x xs)
  show ?case
  proof (cases "f x = k")
    case True
    with Cons.prems have "k \<notin> set (map f xs)" by auto
    then have "filter (\<lambda>x. f x = k) xs = []" by (auto simp: filter_empty_conv)
    with True show ?thesis by simp
  next
    case False
    with Cons show ?thesis by auto
  qed
qed

lemma dedup_keys: "set (map article_key (dedup as)) = set (map article_key as)"
  by (simp add: dedup_def dedup_from_keys del: set_map)

lemma dedup_distinct: "distinct (map article_key (dedup as))"
  by (simp add: dedup_def dedup_from_distinct)

lemma dedup_subseq: "subseq (dedup as) as"
  by (simp add: dedup_def dedup_from_subseq)

lemma dedup_find:
  "find (\<lambda>x. article_key x = k) (dedup as) = find (\<lambda>x. article_key x = k) as"
  by (simp add: dedup_def dedup_from_find)

lemma dedup_once:
  "a \<in> set as \<Longrightarrow> length (filter (\<lambda>x. article_key x = article_key a) (dedup as)) = 1"
proof (rule distinct_key_once [OF dedup_distinct])
  assume "a \<in> set as"
  then have "article_key a \<in> set (map article_key as)" by simp
  then show "article_key a \<in> set (map article_key (dedup as))" by (simp only: dedup_keys)
qed

lemma dedup_pair: "article_key a = article_key b \<Longrightarrow> dedup [a, b] = [a]"
  by (simp add: dedup_def)

section \<open>The composer\<close>

lemma compose_fields:
  "v_claim (compose claim fc news ai) = claim"
  "verdict (compose claim fc news ai) = ANALYZED"
  "analysis (compose claim fc news ai) = analysis_of ai"
  "supporting_articles (compose claim fc news ai) = dedup (articles_of news)"
  "articles_count (compose claim fc news ai) = length (dedup (articles_of news))"
  "google_fact_check (compose claim fc news ai) = embedded fc"
  by (simp_all add: compose_def Let_def)

text \<open>
  Claim C7. The composed Verdict holds the News Adapter's articles deduplicated on the
  triple (title, source, URL): no two of its articles share a triple, they come in the
  order received, every triple received is there once, represented by the first article
  that had it, and \<open>articles_count\<close> is the number of articles left. Of two articles with
  the same triple and different descriptions the Verdict holds one, the first, and the
  count is 1.
\<close>

theorem compose_deduplicates:
  "distinct (map article_key (supporting_articles (compose claim fc (ArticleList as) ai)))
   \<and> subseq (supporting_articles (compose claim fc (ArticleList as) ai)) as
   \<and> (\<forall>a \<in> set as.
        length (filter (\<lambda>x. article_key x = article_key a)
                  (supporting_articles (compose claim fc (ArticleList as) ai))) = 1
        \<and> find (\<lambda>x. article_key x = article_key a)
                  (supporting_articles (compose claim fc (ArticleList as) ai))
            = find (\<lambda>x. article_key x = article_key a) as)
   \<and> articles_count (compose claim fc (ArticleList as) ai)
       = length (supporting_articles (compose claim fc (ArticleList as) ai))
   \<and> (article_key a = article_key b \<and> description a \<noteq> description b \<longrightarrow>
        supporting_articles (compose claim fc (ArticleList [a, b]) ai) = [a]
        \<and> articles_count (compose claim fc (ArticleList [a, b]) ai) = 1)"
proof -
  have sup: "supporting_articles (compose claim fc (ArticleList xs) ai) = dedup xs" for xs
    by (simp add: compose_fields articles_of_def)
  have cnt: "articles_count (compose claim fc (ArticleList xs) ai) = length (dedup xs)" for xs
    by (simp add: compose_fields articles_of_def)
  show ?thesis
    unfolding sup cnt
    by (intro conjI ballI impI)
       (simp_all add: dedup_distinct dedup_subseq dedup_once dedup_find dedup_pair)
qed

theorem compose_deduplicates_witness:
  "article1 \<in> set [article1, article2, article3]
   \<and> article_key article1 = article_key article2
   \<and> description article1 \<noteq> description article2
   \<and> supporting_articles
        (compose ''Coffee is good'' (Unavailable no_match) (ArticleList [article1, article2])
           (AiAnalysis ''Plausible.'')) = [article1]
   \<and> articles_count
        (compose ''Coffee is good'' (Unavailable no_match) (ArticleList [article1, article2])
           (AiAnalysis ''Plausible.'')) = 1
   \<and> length (filter (\<lambda>x. article_key x = article_key article1)
        (supporting_articles
          (compose ''Coffee is good'' (Unavailable no_match)
             (ArticleList [article1, article2, article3]) (AiAnalysis ''Plausible.'')))) = 1"
proof -
  have mem: "article1 \<in> set [article1, article2, article3]" by simp
  have key: "article_key article1 = article_key article2"
    by (simp add: article_key_def article1_def article2_def)
  have descr: "description article1 \<noteq> description article2"
    by (simp add: article1_def article2_def)
  note inst = compose_deduplicates [of "''Coffee is good''" "Unavailable no_match" _
      "AiAnalysis ''Plausible.''" article1 article2]
  from inst [of "[article1, article2, article3]"] mem
  have once: "length (filter (\<lambda>x. article_key x = article_key article1)
        (supporting_articles
          (compose ''Coffee is good'' (Unavailable no_match)
             (ArticleList [article1, article2, article3]) (AiAnalysis ''Plausible.'')))) = 1"
    by blast
  from inst [of "[]"] key descr
  have pair: "supporting_articles
        (compose ''Coffee is good'' (Unavailable no_match) (ArticleList [article1, article2])
           (AiAnalysis ''Plausible.'')) = [article1]
     \<and> articles_count
        (compose ''Coffee is good'' (Unavailable no_match) (ArticleList [article1, article2])
           (AiAnalysis ''Plausible.'')) = 1"
    by blast
  from mem key descr once pair show ?thesis by blast
qed

lemma run_sources_fst:
  "fst (run_sources A claim) =
     compose claim
       (fst (withRetry (fact_check_query A claim) maxAttempts))
       (fst (withRetry (news_query A claim) maxAttempts))
       (fst (withRetry (ai_query A claim
               (articles_of (fst (withRetry (news_query A claim) maxAttempts))))
             maxAttempts))"
  by (simp add: run_sources_def Let_def)

text \<open>
  Claim C6, as stated, fails. In the end-to-end scenario the Fact-Check Adapter returns a
  hit with the verdict \<open>FALSE\<close>, which is not \<open>UNCHECKED\<close>, and the label of the composed
  Verdict is not that verdict: the Verdict \<open>factCheck\<close> returns is labelled \<open>ANALYZED\<close>.
\<close>

theorem compose_label_counterexample:
  "fc_verdict politifact_hit = FALSE
   \<and> fc_verdict politifact_hit \<noteq> UNCHECKED
   \<and> verdict (compose ''Vaccines cause autism'' (FactCheckHit politifact_hit)
                (ArticleList [article1, article3, article4])
                (AiAnalysis ''The claim is false.'')) \<noteq> fc_verdict politifact_hit
   \<and> fst (run_sources scenario ''Vaccines cause autism'')
       = compose ''Vaccines cause autism'' (FactCheckHit politifact_hit)
           (ArticleList [article1, article3, article4]) (AiAnalysis ''The claim is false.'')
   \<and> map_sum id verdict
         (returned (factCheck plain_key scenario 0 1 ''Vaccines cause autism'' Map.empty))
       = Inr ANALYZED"
proof -
  let ?c = "''Vaccines cause autism''"
  have given: "strip ?c \<noteq> []" by code_simp
  have miss: "cache_get Map.empty (get_cache_key plain_key ?c) 0 = None"
    by (simp add: cache_get_def)
  have "returned (factCheck plain_key scenario 0 1 ?c Map.empty) = Inr (fst (run_sources scenario ?c))"
    by (simp add: factCheck_miss [OF given miss])
  moreover have "verdict (fst (run_sources scenario ?c)) = ANALYZED"
    by (simp add: run_sources_fst compose_fields)
  moreover have "fst (run_sources scenario ?c)
       = compose ?c (FactCheckHit politifact_hit)
           (ArticleList [article1, article3, article4]) (AiAnalysis ''The claim is false.'')"
    by code_simp
  ultimately show ?thesis by (simp add: politifact_hit_def compose_fields)
qed

text \<open>
  Claim C6, amended. The label of the composed Verdict is \<open>ANALYZED\<close> in every composition,
  with a fact-check hit as without one. A hit whose verdict is not \<open>UNCHECKED\<close> is embedded
  as \<open>google_fact_check\<close> (verdict, source, summary) next to the analysis of the AI result.
  In the end-to-end scenario the Verdict has the label \<open>ANALYZED\<close>, and its
  \<open>google_fact_check\<close> has the verdict \<open>FALSE\<close> and the source PolitiFact.
\<close>

theorem compose_label_analyzed:
  "verdict (compose claim fc news ai) = ANALYZED
   \<and> (fc = FactCheckHit h \<and> fc_verdict h \<noteq> UNCHECKED \<longrightarrow>
        google_fact_check (compose claim fc news ai) = Some h
        \<and> analysis (compose claim fc news ai) = analysis_of ai
        \<and> (ai = AiAnalysis words \<longrightarrow> analysis (compose claim fc news ai) = words))"
proof (intro conjI impI)
  show "verdict (compose claim fc news ai) = ANALYZED" by (simp add: compose_fields)
next
  assume "fc = FactCheckHit h \<and> fc_verdict h \<noteq> UNCHECKED"
  then show "google_fact_check (compose claim fc news ai) = Some h"
    by (simp add: compose_fields embedded_def)
  show "analysis (compose claim fc news ai) = analysis_of ai" by (simp add: compose_fields)
  assume "ai = AiAnalysis words"
  then show "analysis (compose claim fc news ai) = words"
    by (simp add: compose_fields analysis_of_def)
qed

theorem compose_label_analyzed_witness:
  "fc_verdict politifact_hit \<noteq> UNCHECKED
   \<and> (\<exists>v. returned (factCheck plain_key scenario 0 1 ''Vaccines cause autism'' Map.empty) = Inr v
          \<and> label_name (verdict v) = ''ANALYZED''
          \<and> map_option fc_source (google_fact_check v) = Some ''PolitiFact''
          \<and> map_option (label_name \<circ> fc_verdict) (google_fact_check v) = Some ''FALSE''
          \<and> analysis v = ''The claim is false.''
          \<and> articles_count v = 3)"
proof -
  let ?c = "''Vaccines cause autism''"
  let ?fc = "FactCheckHit politifact_hit"
  let ?news = "ArticleList [article1, article3, article4]"
  let ?ai = "AiAnalysis ''The claim is false.''"
  have hit: "fc_verdict politifact_hit \<noteq> UNCHECKED" by (simp add: politifact_hit_def)
  have given: "strip ?c \<noteq> []" by code_simp
  have miss: "cache_get Map.empty (get_cache_key plain_key ?c) 0 = None"
    by (simp add: cache_get_def)
  have run: "fst (run_sources scenario ?c) = compose ?c ?fc ?news ?ai" by code_simp
  have ret: "returned (factCheck plain_key scenario 0 1 ?c Map.empty) = Inr (compose ?c ?fc ?news ?ai)"
    by (simp add: factCheck_miss [OF given miss] run)
  from compose_label_analyzed [of ?c ?fc ?news ?ai politifact_hit "''The claim is false.''"] hit
  have "verdict (compose ?c ?fc ?news ?ai) = ANALYZED"
    and "google_fact_check (compose ?c ?fc ?news ?ai) = Some politifact_hit"
    and "analysis (compose ?c ?fc ?news ?ai) = ''The claim is false.''"
    by blast+
  then have "label_name (verdict (compose ?c ?fc ?news ?ai)) = ''ANALYZED''"
    and "map_option fc_source (google_fact_check (compose ?c ?fc ?news ?ai)) = Some ''PolitiFact''"
    and "map_option (label_name \<circ> fc_verdict) (google_fact_check (compose ?c ?fc ?news ?ai))
           = Some ''FALSE''"
    and "analysis (compose ?c ?fc ?news ?ai) = ''The claim is false.''"
    by (simp_all add: politifact_hit_def)
  moreover have "articles_count (compose ?c ?fc ?news ?ai) = 3" by code_simp
  ultimately show ?thesis using hit ret by blast
qed

text \<open>
  Claim C8. When the results of all three sources are \<open>Unavailable\<close>, the composer still
  gives a Verdict: the label is \<open>ANALYZED\<close>, there are no supporting articles, the count is
  0 and no fact-check is embedded; the analysis field holds no analysis (it is the notice
  of its kind when the AI result is unavailable by throttling or by a bad credential, and
  empty otherwise). A call of \<open>factCheck\<close> that invokes the adapters and gets three such
  results returns that Verdict, and rejects nothing.
\<close>

theorem compose_all_unavailable:
  "compose claim (Unavailable r1) (Unavailable r2) (Unavailable r3) =
     \<lparr>v_claim = claim, verdict = ANALYZED,
      analysis = (if r3 = RateLimited then rate_limit_notice
                  else if r3 = AuthError then auth_notice else []),
      supporting_articles = [], articles_count = 0, google_fact_check = None\<rparr>
   \<and> (calls (factCheck md5 A now stored_at claim cache0) \<noteq> []
       \<and> fst (withRetry (fact_check_query A claim) maxAttempts) = Unavailable r1
       \<and> fst (withRetry (news_query A claim) maxAttempts) = Unavailable r2
       \<and> fst (withRetry (ai_query A claim []) maxAttempts) = Unavailable r3
       \<longrightarrow> returned (factCheck md5 A now stored_at claim cache0) =
             Inr \<lparr>v_claim = claim, verdict = ANALYZED,
                  analysis = (if r3 = RateLimited then rate_limit_notice
                              else if r3 = AuthError then auth_notice else []),
                  supporting_articles = [], articles_count = 0, google_fact_check = None\<rparr>)"
proof -
  have composed: "compose claim (Unavailable r1) (Unavailable r2) (Unavailable r3) =
     \<lparr>v_claim = claim, verdict = ANALYZED,
      analysis = (if r3 = RateLimited then rate_limit_notice
                  else if r3 = AuthError then auth_notice else []),
      supporting_articles = [], articles_count = 0, google_fact_check = None\<rparr>"
    by (cases r3)
       (simp_all add: compose_def embedded_def analysis_of_def articles_of_def
          dedup_def)
  have "returned (factCheck md5 A now stored_at claim cache0) =
          Inr (compose claim (Unavailable r1) (Unavailable r2) (Unavailable r3))"
    if invoked: "calls (factCheck md5 A now stored_at claim cache0) \<noteq> []"
      and fc: "fst (withRetry (fact_check_query A claim) maxAttempts) = Unavailable r1"
      and news: "fst (withRetry (news_query A claim) maxAttempts) = Unavailable r2"
      and ai: "fst (withRetry (ai_query A claim []) maxAttempts) = Unavailable r3"
  proof -
    have "articles_of (Unavailable r2) = []" by (simp add: articles_of_def)
    with fc news ai have "fst (run_sources A claim)
        = compose claim (Unavailable r1) (Unavailable r2) (Unavailable r3)"
      by (simp add: run_sources_fst)
    then show ?thesis by (simp add: factCheck_miss [OF factCheck_invoked [OF invoked]])
  qed
  with composed show ?thesis by simp
qed

theorem compose_all_unavailable_witness:
  "calls (factCheck plain_key all_down 0 1 ''Coffee is good'' Map.empty) \<noteq> []
   \<and> fst (withRetry (fact_check_query all_down ''Coffee is good'') maxAttempts)
       = Unavailable ServerError
   \<and> fst (withRetry (news_query all_down ''Coffee is good'') maxAttempts)
       = Unavailable NetworkTimeout
   \<and> fst (withRetry (ai_query all_down ''Coffee is good'' []) maxAttempts)
       = Unavailable RateLimited
   \<and> returned (factCheck plain_key all_down 0 1 ''Coffee is good'' Map.empty) =
       Inr \<lparr>v_claim = ''Coffee is good'', verdict = ANALYZED, analysis = rate_limit_notice,
            supporting_articles = [], articles_count = 0, google_fact_check = None\<rparr>"
proof -
  let ?c = "''Coffee is good''"
  have invoked: "calls (factCheck plain_key all_down 0 1 ?c Map.empty) \<noteq> []" by code_simp
  have fc: "fst (withRetry (fact_check_query all_down ?c) maxAttempts) = Unavailable ServerError"
    by code_simp
  have news: "fst (withRetry (news_query all_down ?c) maxAttempts) = Unavailable NetworkTimeout"
    by code_simp
  have ai: "fst (withRetry (ai_query all_down ?c []) maxAttempts) = Unavailable RateLimited"
    by code_simp
  from compose_all_unavailable [where claim = ?c and ?md5.0 = plain_key and A = all_down
      and now = 0 and stored_at = 1 and ?cache0.0 = Map.empty
      and ?r1.0 = ServerError and ?r2.0 = NetworkTimeout and ?r3.0 = RateLimited]
    invoked fc news ai
  have "returned (factCheck plain_key all_down 0 1 ?c Map.empty) =
       Inr \<lparr>v_claim = ?c, verdict = ANALYZED, analysis = rate_limit_notice,
            supporting_articles = [], articles_count = 0, google_fact_check = None\<rparr>"
    by simp
  with invoked fc news ai show ?thesis by blast
qed


section \<open>Degradation of the AI analysis\<close>

lemma retry_always_raising: "\<forall>k. op k = Raised f \<Longrightarrow> fst (retry op k n) = Unavailable f"
proof (induction n arbitrary: k)
  case 0
  then show ?case by simp
next
  case (Suc n)
  obtain r ds where rec: "retry op (Suc k) n = (r, ds)" by (cases "retry op (Suc k) n")
  from Suc.IH [OF Suc.prems, of "Suc k"] rec have "r = Unavailable f" by simp
  moreover from Suc.prems have "op k = Raised f" by simp
  ultimately show ?case using rec by simp
qed

lemma withRetry_not_retried:
  "op 0 = Raised f \<Longrightarrow> \<not> transient f \<Longrightarrow> withRetry op m = (Unavailable f, [])"
  by (cases "m - 1") (simp_all add: withRetry_def)

lemma notices_differ: "rate_limit_notice \<noteq> auth_notice"
  by (simp add: rate_limit_notice_def auth_notice_def)

lemma notices_invite:
  "sublist ''Please try again in a few moments.'' rate_limit_notice"
  "sublist ''Please check your Gemini API key.'' auth_notice"
  unfolding rate_limit_notice_def auth_notice_def by (metis sublist_appendI append.assoc)+

text \<open>
  Claim C1. For a non-blank claim, when a call of \<open>factCheck\<close> invokes the AI Adapter and
  the adapter's result through the retry controller is \<open>Unavailable\<close> by throttling or by a
  bad credential, the call still returns a Verdict. Its analysis is the notice of that
  kind; the two notices differ, the rate-limit notice asking to try again in a few moments
  and the other to check the API key. The articles of the News Adapter are in the Verdict
  (deduplicated, every triple of title, source and URL still there), and so is the
  fact-check hit. An AI Adapter that raises \<open>RateLimited\<close> at every invocation,
  or \<open>AuthError\<close> at the first, gives such a result.
\<close>

theorem factCheck_degrades:
  "(strip claim \<noteq> []
    \<and> AiAdapter \<in> set (calls (factCheck md5 A now stored_at claim cache0))
    \<and> news = fst (withRetry (news_query A claim) maxAttempts)
    \<and> fst (withRetry (ai_query A claim (articles_of news)) maxAttempts) = Unavailable kind
    \<and> (kind = RateLimited \<or> kind = AuthError)
    \<longrightarrow> (\<exists>v. returned (factCheck md5 A now stored_at claim cache0) = Inr v
          \<and> analysis v = (if kind = RateLimited then rate_limit_notice else auth_notice)
          \<and> supporting_articles v = dedup (articles_of news)
          \<and> article_key ` set (supporting_articles v) = article_key ` set (articles_of news)
          \<and> (articles_of news \<noteq> [] \<longrightarrow> supporting_articles v \<noteq> [])
          \<and> articles_count v = length (supporting_articles v)
          \<and> google_fact_check v
              = embedded (fst (withRetry (fact_check_query A claim) maxAttempts))
          \<and> verdict v = ANALYZED))
   \<and> rate_limit_notice \<noteq> auth_notice
   \<and> sublist ''Please try again in a few moments.'' rate_limit_notice
   \<and> sublist ''Please check your Gemini API key.'' auth_notice
   \<and> ((\<forall>k. op k = Raised RateLimited) \<longrightarrow> fst (withRetry op maxAttempts) = Unavailable RateLimited)
   \<and> (op 0 = Raised AuthError \<longrightarrow> withRetry op maxAttempts = (Unavailable AuthError, []))"
proof (intro conjI impI)
  assume hyp: "strip claim \<noteq> []
    \<and> AiAdapter \<in> set (calls (factCheck md5 A now stored_at claim cache0))
    \<and> news = fst (withRetry (news_query A claim) maxAttempts)
    \<and> fst (withRetry (ai_query A claim (articles_of news)) maxAttempts) = Unavailable kind
    \<and> (kind = RateLimited \<or> kind = AuthError)"
  let ?fc = "fst (withRetry (fact_check_query A claim) maxAttempts)"
  let ?v = "compose claim ?fc news (Unavailable kind)"
  from hyp have given: "strip claim \<noteq> []"
    and invoked: "AiAdapter \<in> set (calls (factCheck md5 A now stored_at claim cache0))"
    and news: "fst (withRetry (news_query A claim) maxAttempts) = news"
    and ai: "fst (withRetry (ai_query A claim (articles_of news)) maxAttempts) = Unavailable kind"
    and kind: "kind = RateLimited \<or> kind = AuthError"
    by blast+
  from invoked have "calls (factCheck md5 A now stored_at claim cache0) \<noteq> []" by auto
  then have miss: "cache_get cache0 (get_cache_key md5 claim) now = None"
    by (rule factCheck_invoked)
  have "fst (run_sources A claim) = ?v" by (simp add: run_sources_fst news ai)
  then have ret: "returned (factCheck md5 A now stored_at claim cache0) = Inr ?v"
    by (simp add: factCheck_miss [OF given miss])
  have notice: "analysis ?v = (if kind = RateLimited then rate_limit_notice else auth_notice)"
    using kind by (auto simp: compose_fields analysis_of_def)
  have keys: "article_key ` set (supporting_articles ?v) = article_key ` set (articles_of news)"
    using dedup_keys [of "articles_of news"] by (simp add: compose_fields)
  show "\<exists>v. returned (factCheck md5 A now stored_at claim cache0) = Inr v
          \<and> analysis v = (if kind = RateLimited then rate_limit_notice else auth_notice)
          \<and> supporting_articles v = dedup (articles_of news)
          \<and> article_key ` set (supporting_articles v) = article_key ` set (articles_of news)
          \<and> (articles_of news \<noteq> [] \<longrightarrow> supporting_articles v \<noteq> [])
          \<and> articles_count v = length (supporting_articles v)
          \<and> google_fact_check v = embedded ?fc
          \<and> verdict v = ANALYZED"
  proof (intro exI conjI)
    show "returned (factCheck md5 A now stored_at claim cache0) = Inr ?v" by (rule ret)
    show "analysis ?v = (if kind = RateLimited then rate_limit_notice else auth_notice)"
      by (rule notice)
    show "article_key ` set (supporting_articles ?v) = article_key ` set (articles_of news)"
      by (rule keys)
    show "articles_of news \<noteq> [] \<longrightarrow> supporting_articles ?v \<noteq> []"
      using keys by auto
  qed (simp_all add: compose_fields)
next
  show "rate_limit_notice \<noteq> auth_notice" by (rule notices_differ)
  show "sublist ''Please try again in a few moments.'' rate_limit_notice"
    by (rule notices_invite)
  show "sublist ''Please check your Gemini API key.'' auth_notice" by (rule notices_invite)
next
  assume "\<forall>k. op k = Raised RateLimited"
  then show "fst (withRetry op maxAttempts) = Unavailable RateLimited"
    by (simp add: withRetry_def retry_always_raising)
next
  assume "op 0 = Raised AuthError"
  then show "withRetry op maxAttempts = (Unavailable AuthError, [])"
    by (simp add: withRetry_not_retried)
qed

theorem factCheck_degrades_witness:
  "strip ''Coffee is good'' \<noteq> []
   \<and> AiAdapter \<in> set (calls (factCheck plain_key ai_throttled 0 1 ''Coffee is good'' Map.empty))
   \<and> AiAdapter \<in> set (calls (factCheck plain_key ai_bad_key 0 1 ''Coffee is good'' Map.empty))
   \<and> (\<forall>k. ai_query ai_throttled ''Coffee is good'' [article1, article3] k = Raised RateLimited)
   \<and> ai_query ai_bad_key ''Coffee is good'' [article4] 0 = Raised AuthError
   \<and> (\<exists>v. returned (factCheck plain_key ai_throttled 0 1 ''Coffee is good'' Map.empty) = Inr v
          \<and> analysis v = rate_limit_notice
          \<and> supporting_articles v = [article1, article3])
   \<and> (\<exists>v. returned (factCheck plain_key ai_bad_key 0 1 ''Coffee is good'' Map.empty) = Inr v
          \<and> analysis v = auth_notice
          \<and> supporting_articles v = [article4]
          \<and> google_fact_check v = Some politifact_hit)"
proof -
  let ?c = "''Coffee is good''"
  have given: "strip ?c \<noteq> []" by code_simp
  have inv1: "AiAdapter \<in> set (calls (factCheck plain_key ai_throttled 0 1 ?c Map.empty))"
    by code_simp
  have inv2: "AiAdapter \<in> set (calls (factCheck plain_key ai_bad_key 0 1 ?c Map.empty))"
    by code_simp
  have always: "\<forall>k. ai_query ai_throttled ?c [article1, article3] k = Raised RateLimited"
    by (simp add: ai_throttled_def)
  have first: "ai_query ai_bad_key ?c [article4] 0 = Raised AuthError"
    by (simp add: ai_bad_key_def)
  have news1: "ArticleList [article1, article3] = fst (withRetry (news_query ai_throttled ?c) maxAttempts)"
    by code_simp
  have news2: "ArticleList [article4] = fst (withRetry (news_query ai_bad_key ?c) maxAttempts)"
    by code_simp
  have arts1: "articles_of (ArticleList [article1, article3]) = [article1, article3]"
    and arts2: "articles_of (ArticleList [article4]) = [article4]"
    by (simp_all add: articles_of_def)
  have dd1: "dedup [article1, article3] = [article1, article3]" by code_simp
  have dd2: "dedup [article4] = [article4]" by code_simp
  have fc2: "fst (withRetry (fact_check_query ai_bad_key ?c) maxAttempts) = FactCheckHit politifact_hit"
    by code_simp
  from factCheck_degrades [where claim = ?c and ?md5.0 = plain_key and A = ai_throttled
      and now = 0 and stored_at = 1 and ?cache0.0 = Map.empty
      and news = "ArticleList [article1, article3]" and kind = RateLimited
      and op = "ai_query ai_throttled ?c [article1, article3]"] always
  have ai1: "fst (withRetry (ai_query ai_throttled ?c (articles_of (ArticleList [article1, article3])))
               maxAttempts) = Unavailable RateLimited"
    by (simp add: arts1)
  from factCheck_degrades [where claim = ?c and ?md5.0 = plain_key and A = ai_bad_key
      and now = 0 and stored_at = 1 and ?cache0.0 = Map.empty
      and news = "ArticleList [article4]" and kind = AuthError
      and op = "ai_query ai_bad_key ?c [article4]"] first
  have ai2: "fst (withRetry (ai_query ai_bad_key ?c (articles_of (ArticleList [article4])))
               maxAttempts) = Unavailable AuthError"
    by (simp add: arts2)
  from factCheck_degrades [where claim = ?c and ?md5.0 = plain_key and A = ai_throttled
      and now = 0 and stored_at = 1 and ?cache0.0 = Map.empty
      and news = "ArticleList [article1, article3]" and kind = RateLimited
      and op = "ai_query ai_throttled ?c [article1, article3]"]
    given inv1 news1 ai1
  obtain v1 where "returned (factCheck plain_key ai_throttled 0 1 ?c Map.empty) = Inr v1"
    and "analysis v1 = (if RateLimited = RateLimited then rate_limit_notice else auth_notice)"
    and "supporting_articles v1 = dedup (articles_of (ArticleList [article1, article3]))"
    by blast
  then have 1: "\<exists>v. returned (factCheck plain_key ai_throttled 0 1 ?c Map.empty) = Inr v
          \<and> analysis v = rate_limit_notice
          \<and> supporting_articles v = [article1, article3]"
    by (simp add: arts1 dd1)
  from factCheck_degrades [where claim = ?c and ?md5.0 = plain_key and A = ai_bad_key
      and now = 0 and stored_at = 1 and ?cache0.0 = Map.empty
      and news = "ArticleList [article4]" and kind = AuthError
      and op = "ai_query ai_bad_key ?c [article4]"]
    given inv2 news2 ai2
  obtain v2 where "returned (factCheck plain_key ai_bad_key 0 1 ?c Map.empty) = Inr v2"
    and "analysis v2 = (if AuthError = RateLimited then rate_limit_notice else auth_notice)"
    and "supporting_articles v2 = dedup (articles_of (ArticleList [article4]))"
    and "google_fact_check v2
           = embedded (fst (withRetry (fact_check_query ai_bad_key ?c) maxAttempts))"
    by blast
  then have 2: "\<exists>v. returned (factCheck plain_key ai_bad_key 0 1 ?c Map.empty) = Inr v
          \<and> analysis v = auth_notice
          \<and> supporting_articles v = [article4]
          \<and> google_fact_check v = Some politifact_hit"
    by (simp add: arts2 dd2 fc2 embedded_def)
  from given inv1 inv2 always first 1 2 show ?thesis by blast
qed


end
